theory Spec2Isabelle
  imports Main "HOL-Library.Multiset"
begin

section \<open>Backup service of MoMo-Hub: a shallow embedding\<close>

text \<open>
  The TypeScript class \<open>BackupService\<close> (backup.ts) and the method
  \<open>DatabaseStorage.updateStorageUsage\<close> (storage.ts) are embedded as functions on an
  explicit \<open>world\<close>: the local file system, the Supabase bucket, the \<open>users\<close>
  table, the clock and the process working directory. A promise is a value of
  \<open>'a outcome \<times> world\<close>: \<open>Resolved x\<close> is a resolution with \<open>x\<close>, \<open>Rejected e\<close>
  a rejection with \<open>e\<close>, and \<open>Unsettled e\<close> a promise that never settles because
  \<open>e\<close> was raised outside of it, as an uncaught exception of the process; the second
  component is the world after the effects made so far. Every call of a library
  function (fs-extra, archiver, supabase-js, drizzle) is recorded in \<open>trace\<close>, so that
  "is invoked", "writes" and "accesses" are statements about that list. Console output
  is not modelled. The messages of file-system errors are abbreviated to the error code
  and its description.
\<close>

subsection \<open>Strings and paths\<close>

text \<open>\<open>String.prototype.startsWith\<close> and \<open>String.prototype.includes\<close>.\<close>

fun startsWith :: "string \<Rightarrow> string \<Rightarrow> bool" where
  "startsWith s [] = True"
| "startsWith [] (c # cs) = False"
| "startsWith (x # xs) (c # cs) = (x = c \<and> startsWith xs cs)"

fun str_includes :: "string \<Rightarrow> string \<Rightarrow> bool" where
  "str_includes [] t = (t = [])"
| "str_includes (x # xs) t = (startsWith (x # xs) t \<or> str_includes xs t)"

text \<open>
  An absolute, normalised POSIX path is the list of its segments (\<open>[]\<close> is the root).
  \<open>path_join base args\<close> is Node's \<open>path.join(base, ...args)\<close> on a POSIX system
  for such a base: the arguments are concatenated with \<open>/\<close> and the result is
  normalised, which drops empty and \<open>.\<close> segments and lets \<open>..\<close> remove the segment
  before it (nothing above the root). The list holds the segments only; whether the
  joined string ends in a separator, which \<open>path.join\<close> keeps, is \<open>join_sep args\<close>:
  it does when the last non-empty argument does (the bases of this program do not end
  in one). A backslash is a character like any other, as it is on POSIX.
\<close>

type_synonym path = "string list"

fun split_on :: "char \<Rightarrow> string \<Rightarrow> string list" where
  "split_on c [] = [[]]"
| "split_on c (x # xs) =
     (if x = c then [] # split_on c xs
      else (case split_on c xs of [] \<Rightarrow> [[x]] | s # ss \<Rightarrow> (x # s) # ss))"

definition norm_step :: "path \<Rightarrow> string \<Rightarrow> path" where
  "norm_step p s =
     (if s = [] \<or> s = ''.'' then p
      else if s = ''..'' then butlast p
      else p @ [s])"

definition path_join :: "path \<Rightarrow> string list \<Rightarrow> path" where
  "path_join base args = foldl norm_step base (concat (map (split_on CHR ''/'') args))"

definition join_sep :: "string list \<Rightarrow> bool" where
  "join_sep args =
     (case filter (\<lambda>a. a \<noteq> []) args of
        [] \<Rightarrow> False
      | a # as \<Rightarrow> last (last (a # as)) = CHR ''/'')"

text \<open>A plain segment: a file or directory name that is not empty, \<open>.\<close> or \<open>..\<close> and
  holds no separator.\<close>

definition plain_seg :: "string \<Rightarrow> bool" where
  "plain_seg s = (s \<noteq> [] \<and> s \<noteq> ''.'' \<and> s \<noteq> ''..'' \<and> CHR ''/'' \<notin> set s)"

text \<open>A safe identifier: not empty, not \<open>.\<close> or \<open>..\<close>, and made of ASCII letters,
  digits, \<open>-\<close>, \<open>_\<close> and \<open>.\<close> only. The user ids (UUIDs) and the backup names
  (\<open>backup_2024-01-02T03-04-05_GMT.zip\<close>) the system itself makes are of this kind.\<close>

definition safe_char :: "char \<Rightarrow> bool" where
  "safe_char c = (c \<in> set ''abcdefghijklmnopqrstuvwxyzABCDEFGHIJKLMNOPQRSTUVWXYZ0123456789-_.'')"

definition safe_id :: "string \<Rightarrow> bool" where
  "safe_id s = (s \<noteq> [] \<and> s \<noteq> ''.'' \<and> s \<noteq> ''..'' \<and> list_all safe_char s)"

subsection \<open>Object keys in request URLs\<close>

text \<open>
  The storage client of supabase-js sends the key of an upload or a download inside
  the path of the request URL, \<^verbatim>\<open>${url}/storage/v1/object/momo-backups/${key}\<close>,
  as it is, and \<open>fetch\<close> parses that string as the URL standard says for an
  \<open>http(s)\<close> URL: control characters and spaces at the end of the input are dropped,
  tabs and newlines are removed, the path ends at the first \<open>?\<close> or \<open>#\<close>, a
  backslash counts as \<open>/\<close>, a segment \<open>.\<close> (also written \<open>%2e\<close>) is skipped and a
  segment \<open>..\<close> (also \<open>.%2e\<close>, \<open>%2e.\<close>, \<open>%2e%2e\<close>) removes the segment before
  it; a path that ends in such a segment ends in an empty one. The provider takes the
  segment after \<open>object\<close> as the bucket and percent-decodes the rest as the key; a
  malformed escape is refused. \<open>object_key k\<close> is the key of the object of
  \<open>momo-backups\<close> that a request made for \<open>k\<close> addresses, if it addresses one.
\<close>

definition c0_or_space :: "char \<Rightarrow> bool" where
  "c0_or_space c = ((of_char c :: nat) \<le> 32)"

definition tab_or_newline :: "char \<Rightarrow> bool" where
  "tab_or_newline c = (c = CHR 0x09 \<or> c = CHR 0x0A \<or> c = CHR 0x0D)"

definition url_path_chars :: "string \<Rightarrow> string" where
  "url_path_chars k =
     map (\<lambda>c. if c = CHR 0x5C then CHR ''/'' else c)
       (takeWhile (\<lambda>c. c \<noteq> CHR ''?'' \<and> c \<noteq> CHR ''#'')
          (filter (\<lambda>c. \<not> tab_or_newline c) (rev (dropWhile c0_or_space (rev k)))))"

fun undot :: "string \<Rightarrow> string" where
  "undot (a # b # c # s) =
     (if a = CHR ''%'' \<and> b = CHR ''2'' \<and> (c = CHR ''e'' \<or> c = CHR ''E'') then CHR ''.'' # undot s
      else a # undot (b # c # s))"
| "undot s = s"

definition single_dot :: "string \<Rightarrow> bool" where
  "single_dot s = (undot s = ''.'')"

definition double_dot :: "string \<Rightarrow> bool" where
  "double_dot s = (undot s = ''..'')"

definition url_step :: "string list \<Rightarrow> string \<Rightarrow> string list" where
  "url_step segs s =
     (if double_dot s then butlast segs
      else if single_dot s then segs
      else segs @ [s])"

definition url_path :: "string list \<Rightarrow> string \<Rightarrow> string list" where
  "url_path base k =
     (let parts = split_on CHR ''/'' (url_path_chars k);
          segs = foldl url_step base parts
      in if double_dot (last parts) \<or> single_dot (last parts) then segs @ [[]] else segs)"

definition hex_val :: "char \<Rightarrow> nat option" where
  "hex_val c =
     map_of (zip ''0123456789abcdefABCDEF''
               [0, 1, 2, 3, 4, 5, 6, 7, 8, 9, 10, 11, 12, 13, 14, 15, 10, 11, 12, 13, 14, 15]) c"

fun pct_decode :: "string \<Rightarrow> string option" where
  "pct_decode [] = Some []"
| "pct_decode (c # s) =
     (if c = CHR ''%'' then
        (case s of
           h1 # h2 # r \<Rightarrow>
             (case (hex_val h1, hex_val h2, pct_decode r) of
                (Some a, Some b, Some t) \<Rightarrow> Some (char_of (16 * a + b) # t)
              | _ \<Rightarrow> None)
         | _ \<Rightarrow> None)
      else map_option ((#) c) (pct_decode s))"

fun join_slash :: "string list \<Rightarrow> string" where
  "join_slash [] = []"
| "join_slash [s] = s"
| "join_slash (s # t # ss) = s @ CHR ''/'' # join_slash (t # ss)"

definition bucket_url :: "string list" where
  "bucket_url = [''storage'', ''v1'', ''object'', ''momo-backups'']"

definition object_key :: "string \<Rightarrow> string option" where
  "object_key k =
     (let segs = url_path bucket_url k in
      if take 4 segs = bucket_url \<and> 4 < length segs then pct_decode (join_slash (drop 4 segs))
      else None)"

text \<open>Before it builds the URL the client removes the slashes at the start of the key
  (\<^verbatim>\<open>path.replace(/^\/+/, '')\<close>); for an upload it first removes one slash at
  either end and turns every run of slashes into one
  (\<^verbatim>\<open>path.replace(/^\/|\/$/g, '').replace(/\/+/g, '/')\<close>).\<close>

fun squeeze_slashes :: "string \<Rightarrow> string" where
  "squeeze_slashes (a # b # s) =
     (if a = CHR ''/'' \<and> b = CHR ''/'' then squeeze_slashes (b # s) else a # squeeze_slashes (b # s))"
| "squeeze_slashes s = s"

definition removeEmptyFolders :: "string \<Rightarrow> string" where
  "removeEmptyFolders k =
     (let k1 = (if k \<noteq> [] \<and> hd k = CHR ''/'' then tl k else k);
          k2 = (if k1 \<noteq> [] \<and> last k1 = CHR ''/'' then butlast k1 else k1)
      in squeeze_slashes k2)"

definition download_key :: "string \<Rightarrow> string option" where
  "download_key k = object_key (dropWhile (\<lambda>c. c = CHR ''/'') k)"

definition upload_key :: "string \<Rightarrow> string option" where
  "upload_key k = download_key (removeEmptyFolders k)"

subsection \<open>Errors, files, bucket objects, user rows\<close>

text \<open>A thrown value: a JavaScript \<open>Error\<close> or a Supabase \<open>StorageError\<close>, with its
  \<open>message\<close> and optional HTTP \<open>status\<close>.\<close>

datatype error = Error (err_message: string) (err_status: "int option")

text \<open>A file holds its bytes and its birth time (epoch milliseconds); a directory its
  reported size and birth time.\<close>

datatype node = File (bytes: string) (birthtime: int) | Dir (dir_size: int) (birthtime: int)

record stats =
  st_size :: int
  st_birthtime :: int

fun node_stats :: "node \<Rightarrow> stats" where
  "node_stats (File b t) = \<lparr>st_size = int (length b), st_birthtime = t\<rparr>"
| "node_stats (Dir n t) = \<lparr>st_size = n, st_birthtime = t\<rparr>"

text \<open>An object of the bucket \<open>momo-backups\<close>: its bytes, the \<open>metadata.size\<close> the
  provider reports (possibly absent) and \<open>created_at\<close>. A timestamp string is
  represented by the number \<open>new Date(s).getTime()\<close>.\<close>

record cobject =
  obj_bytes :: string
  obj_size :: "int option"
  obj_created :: int

text \<open>An item of a bucket listing (\<open>name\<close>, \<open>metadata?.size\<close>, \<open>created_at\<close>).\<close>

record item =
  item_name :: string
  item_size :: "int option"
  item_created :: int

text \<open>A row of the table \<open>users\<close>, with the columns storage.ts reads and writes.\<close>

record user =
  user_id :: string
  businessName :: string
  pinHash :: string
  email :: "string option"
  createdAt :: int
  storageUsed :: int
  storageLimit :: int
  lastBusinessNameChange :: "int option"

subsection \<open>The world, its trace and injected faults\<close>

text \<open>The kinds of library call that can fail for a reason outside the model (disk,
  network, database): \<open>fault w k = Some e\<close> makes every call of kind \<open>k\<close> fail with
  \<open>e\<close>. \<open>fs.pathExists\<close> never rejects and has no kind. In \<open>zipDatabase\<close>,
  \<open>KZip\<close> is an error of the archiver and \<open>KWriteStream\<close> an error of the stream it
  writes to.\<close>

datatype call =
    KEnsureDir | KZip | KWriteStream | KStat | KReadFile | KRemove | KMove | KReaddir | KWriteFile
  | KGetBucket | KCreateBucket | KUpload | KList | KDownload
  | KUpdateUsage | KCreateClient

datatype event =
    FsEnsureDir path
  | FsPathExists path
  | FsZip path path
  | FsStat path
  | FsReadFile path
  | FsRemove path
  | FsMove path path
  | FsReaddir path
  | FsWriteFile path string
  | SbCreateClient string string
  | SbGetBucket string
  | SbCreateBucket string
  | SbUpload string string
  | SbList string
  | SbDownload string
  | DbUpdateUsage string int

record world =
  cwd :: path
  nowISO :: string
  nowMs :: int
  archiver :: "node option \<Rightarrow> string"
  fsys :: "(path \<times> node) list"
  buckets :: "string list"
  objects :: "(string \<times> cobject) list"
  users :: "user list"
  fault :: "call \<Rightarrow> error option"
  trace :: "event list"

definition emit :: "event \<Rightarrow> world \<Rightarrow> world" where
  "emit ev w = w\<lparr>trace := trace w @ [ev]\<rparr>"

text \<open>The root directory always exists; every other path is looked up in \<open>fsys\<close>.\<close>

definition lookup_fs :: "world \<Rightarrow> path \<Rightarrow> node option" where
  "lookup_fs w p = (if p = [] then Some (Dir 4096 0) else map_of (fsys w) p)"

definition fs_put :: "path \<Rightarrow> node \<Rightarrow> (path \<times> node) list \<Rightarrow> (path \<times> node) list" where
  "fs_put p n fs = (p, n) # filter (\<lambda>e. fst e \<noteq> p) fs"

text \<open>Removing a path removes everything below it too.\<close>

definition fs_del :: "path \<Rightarrow> (path \<times> node) list \<Rightarrow> (path \<times> node) list" where
  "fs_del p fs = filter (\<lambda>e. take (length p) (fst e) \<noteq> p) fs"

subsection \<open>Promises: state and exceptions\<close>

datatype 'a outcome = Resolved 'a | Rejected error | Unsettled error

type_synonym 'a promise = "world \<Rightarrow> 'a outcome \<times> world"

definition returnE :: "'a \<Rightarrow> 'a promise" where
  "returnE x w = (Resolved x, w)"

definition throwE :: "error \<Rightarrow> 'a promise" where
  "throwE e w = (Rejected e, w)"

text \<open>\<open>const x = await m; f(x)\<close>: what follows an \<open>await\<close> runs only when the awaited
  promise resolves; a rejection is thrown on, and after a promise that never settles
  nothing runs.\<close>

definition bindE :: "'a promise \<Rightarrow> ('a \<Rightarrow> 'b promise) \<Rightarrow> 'b promise" where
  "bindE m f w =
     (case m w of
        (Resolved x, w') \<Rightarrow> f x w'
      | (Rejected e, w') \<Rightarrow> (Rejected e, w')
      | (Unsettled e, w') \<Rightarrow> (Unsettled e, w'))"

text \<open>
  \<open>Promise.all(xs.map(f))\<close>: \<open>map\<close> starts every \<open>f x\<close>, in list order, so the effects
  of all of them take place whatever their outcomes. \<open>Promise.all\<close> rejects as soon as
  one of them rejects (here: with the first rejection in list order), never settles
  when none rejects and one never settles, and resolves to the list of the results
  otherwise.
\<close>

fun gather :: "'b outcome \<Rightarrow> 'b list outcome \<Rightarrow> 'b list outcome" where
  "gather (Rejected e) rs = Rejected e"
| "gather (Resolved y) (Resolved ys) = Resolved (y # ys)"
| "gather (Resolved y) (Rejected e) = Rejected e"
| "gather (Resolved y) (Unsettled e) = Unsettled e"
| "gather (Unsettled e) (Rejected e') = Rejected e'"
| "gather (Unsettled e) (Resolved ys) = Unsettled e"
| "gather (Unsettled e) (Unsettled e') = Unsettled e"

fun mapE :: "('a \<Rightarrow> 'b promise) \<Rightarrow> 'a list \<Rightarrow> 'b list promise" where
  "mapE f [] w = (Resolved [], w)"
| "mapE f (x # xs) w =
     (case f x w of (r, w1) \<Rightarrow>
        (case mapE f xs w1 of (rs, w2) \<Rightarrow> (gather r rs, w2)))"

subsection \<open>The users table (storage.ts)\<close>

text \<open>
  \<^verbatim>\<open>await db.update(users).set({ storageUsed: bytes }).where(eq(users.id, userId));\<close>
  The SQL \<open>UPDATE\<close> sets the one column in every row whose \<open>id\<close> matches.
\<close>

definition set_storageUsed :: "string \<Rightarrow> int \<Rightarrow> user list \<Rightarrow> user list" where
  "set_storageUsed userId n rows =
     map (\<lambda>u. if user_id u = userId then u\<lparr>storageUsed := n\<rparr> else u) rows"

definition updateStorageUsage :: "string \<Rightarrow> int \<Rightarrow> unit promise" where
  "updateStorageUsage userId n w =
     (let w1 = emit (DbUpdateUsage userId n) w in
      case fault w KUpdateUsage of
        Some e \<Rightarrow> (Rejected e, w1)
      | None \<Rightarrow> (Resolved (), w1\<lparr>users := set_storageUsed userId n (users w)\<rparr>))"

text \<open>\<open>try { m } catch (e) { h e }\<close>: the handler runs on a rejection of what the block
  awaits. An exception raised outside the awaited promise does not reach it.\<close>

definition catchE :: "'a promise \<Rightarrow> (error \<Rightarrow> 'a promise) \<Rightarrow> 'a promise" where
  "catchE m h w =
     (case m w of
        (Resolved x, w') \<Rightarrow> (Resolved x, w')
      | (Rejected e, w') \<Rightarrow> h e w'
      | (Unsettled e, w') \<Rightarrow> (Unsettled e, w'))"

definition getCwd :: "path promise" where
  "getCwd w = (Resolved (cwd w), w)"

definition getNowISO :: "string promise" where
  "getNowISO w = (Resolved (nowISO w), w)"

subsection \<open>fs-extra and archiver\<close>

fun is_file :: "node option \<Rightarrow> bool" where
  "is_file (Some (File b t)) = True"
| "is_file n = False"

fun is_dir :: "node option \<Rightarrow> bool" where
  "is_dir (Some (Dir n t)) = True"
| "is_dir n = False"

text \<open>A path string is given by its segments and by whether it ends in a separator.
  With the separator it names a directory only: a file at the segments is not found
  (\<open>ENOTDIR\<close>).\<close>

definition named :: "world \<Rightarrow> path \<Rightarrow> bool \<Rightarrow> node option" where
  "named w p sep = (if sep \<and> \<not> is_dir (lookup_fs w p) then None else lookup_fs w p)"

text \<open>\<open>fs.pathExists\<close> resolves to a boolean and never rejects.\<close>

definition fs_pathExists :: "path \<Rightarrow> bool \<Rightarrow> bool promise" where
  "fs_pathExists p sep w = (Resolved (named w p sep \<noteq> None), emit (FsPathExists p) w)"

text \<open>The non-empty prefixes of a path, shortest first.\<close>

definition ancestors :: "path \<Rightarrow> path list" where
  "ancestors p = map (\<lambda>n. take n p) [1 ..< Suc (length p)]"

definition mkdir_if_absent :: "int \<Rightarrow> (path \<times> node) list \<Rightarrow> path \<Rightarrow> (path \<times> node) list" where
  "mkdir_if_absent t fs q = (if map_of fs q = None then fs @ [(q, Dir 4096 t)] else fs)"

text \<open>\<open>fs.ensureDir\<close> / \<open>fs.ensureDirSync\<close>: \<open>mkdir -p\<close>. It fails with \<open>ENOTDIR\<close>
  when a component before the last is a file, and with \<open>EEXIST\<close> when the path itself
  is a file.\<close>

definition fs_ensureDir :: "path \<Rightarrow> unit promise" where
  "fs_ensureDir p w =
     (let w1 = emit (FsEnsureDir p) w in
      case fault w KEnsureDir of
        Some e \<Rightarrow> (Rejected e, w1)
      | None \<Rightarrow>
          if list_ex (\<lambda>q. is_file (lookup_fs w q)) (butlast (ancestors p))
          then (Rejected (Error ''ENOTDIR: not a directory'' None), w1)
          else if is_file (lookup_fs w p)
          then (Rejected (Error ''EEXIST: file already exists'' None), w1)
          else (Resolved (), w1\<lparr>fsys := foldl (mkdir_if_absent (nowMs w)) (fsys w) (ancestors p)\<rparr>))"

definition fs_stat :: "path \<Rightarrow> stats promise" where
  "fs_stat p w =
     (let w1 = emit (FsStat p) w in
      case fault w KStat of
        Some e \<Rightarrow> (Rejected e, w1)
      | None \<Rightarrow>
          (case lookup_fs w p of
             None \<Rightarrow> (Rejected (Error ''ENOENT: no such file or directory'' None), w1)
           | Some n \<Rightarrow> (Resolved (node_stats n), w1)))"

definition fs_readFile :: "path \<Rightarrow> string promise" where
  "fs_readFile p w =
     (let w1 = emit (FsReadFile p) w in
      case fault w KReadFile of
        Some e \<Rightarrow> (Rejected e, w1)
      | None \<Rightarrow>
          (case lookup_fs w p of
             None \<Rightarrow> (Rejected (Error ''ENOENT: no such file or directory'' None), w1)
           | Some (Dir n t) \<Rightarrow> (Rejected (Error ''EISDIR: illegal operation on a directory'' None), w1)
           | Some (File b t) \<Rightarrow> (Resolved b, w1)))"

text \<open>\<open>fs.remove\<close>: \<open>rm -rf\<close>; a missing path is not an error, a file named with a
  separator at the end is one.\<close>

definition fs_remove :: "path \<Rightarrow> bool \<Rightarrow> unit promise" where
  "fs_remove p sep w =
     (let w1 = emit (FsRemove p) w in
      case fault w KRemove of
        Some e \<Rightarrow> (Rejected e, w1)
      | None \<Rightarrow>
          if sep \<and> is_file (lookup_fs w p) then (Rejected (Error ''ENOTDIR: not a directory'' None), w1)
          else (Resolved (), w1\<lparr>fsys := fs_del p (fsys w)\<rparr>))"

text \<open>\<open>fs.move\<close> without \<open>overwrite\<close>: the source must exist and the destination must
  not. The source only moves files, so the node is moved alone.\<close>

definition fs_move :: "path \<Rightarrow> path \<Rightarrow> unit promise" where
  "fs_move src dst w =
     (let w1 = emit (FsMove src dst) w in
      case fault w KMove of
        Some e \<Rightarrow> (Rejected e, w1)
      | None \<Rightarrow>
          (case lookup_fs w src of
             None \<Rightarrow> (Rejected (Error ''ENOENT: no such file or directory'' None), w1)
           | Some n \<Rightarrow>
               if lookup_fs w dst \<noteq> None then (Rejected (Error ''dest already exists.'' None), w1)
               else (Resolved (), w1\<lparr>fsys := fs_put dst n (fs_del src (fsys w))\<rparr>)))"

text \<open>The names of the entries directly inside a directory, in stored order.\<close>

definition children :: "world \<Rightarrow> path \<Rightarrow> string list" where
  "children w p = map (\<lambda>e. last (fst e)) (filter (\<lambda>e. fst e \<noteq> [] \<and> butlast (fst e) = p) (fsys w))"

definition fs_readdir :: "path \<Rightarrow> string list promise" where
  "fs_readdir p w =
     (let w1 = emit (FsReaddir p) w in
      case fault w KReaddir of
        Some e \<Rightarrow> (Rejected e, w1)
      | None \<Rightarrow>
          (case lookup_fs w p of
             None \<Rightarrow> (Rejected (Error ''ENOENT: no such file or directory'' None), w1)
           | Some (File b t) \<Rightarrow> (Rejected (Error ''ENOTDIR: not a directory'' None), w1)
           | Some (Dir n t) \<Rightarrow> (Resolved (children w p), w1)))"

text \<open>The birth time a write gives the file at \<open>p\<close>: kept when the file is there already.\<close>

definition born :: "world \<Rightarrow> path \<Rightarrow> int" where
  "born w p = (case lookup_fs w p of Some (File b t) \<Rightarrow> t | _ \<Rightarrow> nowMs w)"

text \<open>Why a file cannot be opened for writing at \<open>p\<close>: \<open>p\<close> is a directory, or the
  directory it is to be in is missing or is a file.\<close>

definition open_error :: "world \<Rightarrow> path \<Rightarrow> error option" where
  "open_error w p =
     (if is_dir (lookup_fs w p) then Some (Error ''EISDIR: illegal operation on a directory'' None)
      else if is_file (lookup_fs w (butlast p)) then Some (Error ''ENOTDIR: not a directory'' None)
      else if lookup_fs w (butlast p) = None then Some (Error ''ENOENT: no such file or directory'' None)
      else None)"

definition fs_writeFile :: "path \<Rightarrow> string \<Rightarrow> unit promise" where
  "fs_writeFile p d w =
     (let w1 = emit (FsWriteFile p d) w in
      case fault w KWriteFile of
        Some e \<Rightarrow> (Rejected e, w1)
      | None \<Rightarrow>
          (case open_error w p of
             Some e \<Rightarrow> (Rejected e, w1)
           | None \<Rightarrow> (Resolved (), w1\<lparr>fsys := fs_put p (File d (born w p)) (fsys w)\<rparr>)))"

text \<open>
  \<^verbatim>\<open>private zipDatabase(source, out)\<close> (lines 209-222).
  \<open>fs.createWriteStream(out)\<close> creates or truncates \<open>out\<close>, and the archiver streams
  the single entry \<open>database.db\<close> into it; \<open>close\<close> of the stream resolves the
  promise. The bytes of the archive are \<open>archiver w\<close> applied to what is at
  \<open>source\<close>: a file is archived with its bytes, a directory as a directory entry, and
  when nothing is there the archiver emits a \<open>warning\<close>, to which nobody listens, and
  finishes an archive without entries.

  The promise has two sources of errors and the code listens to one of them. An
  \<open>error\<close> event of the archive (\<open>fault w KZip\<close>) goes to
  \<^verbatim>\<open>.on('error', (err) => reject(err))\<close>: the promise is rejected, and what was
  written so far is left (modelled as the empty file). An \<open>error\<close> event of the write
  stream (it cannot be opened, or \<open>fault w KWriteStream\<close>: the disk is full, say) has
  no listener: Node raises it as an uncaught exception, \<open>close\<close> is not emitted, and
  the promise is neither resolved nor rejected.
\<close>

definition zipDatabase :: "path \<Rightarrow> path \<Rightarrow> unit promise" where
  "zipDatabase source out w =
     (let w1 = emit (FsZip source out) w;
          truncated = w1\<lparr>fsys := fs_put out (File [] (born w out)) (fsys w)\<rparr> in
      case open_error w out of
        Some e \<Rightarrow> (Unsettled e, w1)
      | None \<Rightarrow>
          (case fault w KWriteStream of
             Some e \<Rightarrow> (Unsettled e, truncated)
           | None \<Rightarrow>
               (case fault w KZip of
                  Some e \<Rightarrow> (Rejected e, truncated)
                | None \<Rightarrow>
                    (Resolved (),
                     w1\<lparr>fsys := fs_put out (File (archiver w (lookup_fs w source)) (born w out))
                                (fsys w)\<rparr>))))"

subsection \<open>supabase-js storage\<close>

text \<open>
  A storage call resolves to \<open>{ data, error }\<close> and does not reject: a failure is the
  \<open>error\<close> component, and \<open>data\<close> is then \<open>null\<close> (\<open>None\<close>). The provider keeps
  the objects of the bucket \<open>momo-backups\<close> by key.
\<close>

datatype client = Client string string

definition createClient :: "string \<Rightarrow> string \<Rightarrow> client promise" where
  "createClient url key w =
     (let w1 = emit (SbCreateClient url key) w in
      case fault w KCreateClient of
        Some e \<Rightarrow> (Rejected e, w1)
      | None \<Rightarrow> (Resolved (Client url key), w1))"

definition sb_getBucket :: "string \<Rightarrow> (error option) promise" where
  "sb_getBucket name w =
     (let w1 = emit (SbGetBucket name) w in
      case fault w KGetBucket of
        Some e \<Rightarrow> (Resolved (Some e), w1)
      | None \<Rightarrow>
          if name \<in> set (buckets w) then (Resolved None, w1)
          else (Resolved (Some (Error ''Bucket not found'' (Some 404))), w1))"

definition sb_createBucket :: "string \<Rightarrow> (error option) promise" where
  "sb_createBucket name w =
     (let w1 = emit (SbCreateBucket name) w in
      case fault w KCreateBucket of
        Some e \<Rightarrow> (Resolved (Some e), w1)
      | None \<Rightarrow>
          if name \<in> set (buckets w) then (Resolved (Some (Error ''The resource already exists'' (Some 409))), w1)
          else (Resolved None, w1\<lparr>buckets := name # buckets w\<rparr>))"

definition obj_put :: "string \<Rightarrow> cobject \<Rightarrow> (string \<times> cobject) list \<Rightarrow> (string \<times> cobject) list" where
  "obj_put k ob os = (k, ob) # filter (\<lambda>e. fst e \<noteq> k) os"

text \<open>\<open>.from('momo-backups').upload(key, content, { upsert: true })\<close>: the object
  the request addresses is created or replaced.\<close>

definition sb_upload :: "string \<Rightarrow> string \<Rightarrow> (error option) promise" where
  "sb_upload key content w =
     (let w1 = emit (SbUpload key content) w in
      case fault w KUpload of
        Some e \<Rightarrow> (Resolved (Some e), w1)
      | None \<Rightarrow>
          if ''momo-backups'' \<notin> set (buckets w) then (Resolved (Some (Error ''Bucket not found'' (Some 404))), w1)
          else
            (case upload_key key of
               None \<Rightarrow> (Resolved (Some (Error ''Invalid key'' (Some 400))), w1)
             | Some k \<Rightarrow>
                 (Resolved None,
                  w1\<lparr>objects := obj_put k
                        \<lparr>obj_bytes = content, obj_size = Some (int (length content)), obj_created = nowMs w\<rparr>
                        (objects w)\<rparr>)))"

text \<open>The listing of the folder \<open>prefix\<close>: the objects whose key is \<open>prefix/name\<close> with
  no further separator in \<open>name\<close>.\<close>

definition folder_item :: "string \<Rightarrow> string \<times> cobject \<Rightarrow> item option" where
  "folder_item prefix e =
     (let k = fst e; n = drop (length prefix + 1) k in
      if startsWith k (prefix @ ''/'') \<and> n \<noteq> [] \<and> CHR ''/'' \<notin> set n
      then Some \<lparr>item_name = n, item_size = obj_size (snd e), item_created = obj_created (snd e)\<rparr>
      else None)"

definition folder_items :: "string \<Rightarrow> (string \<times> cobject) list \<Rightarrow> item list" where
  "folder_items prefix os = List.map_filter (folder_item prefix) os"

text \<open>The search options of a listing: \<open>{ limit, offset, sortBy: { column, order } }\<close>.\<close>

record search_options =
  opt_limit :: nat
  opt_offset :: nat
  opt_column :: string
  opt_order :: string

text \<open>The provider orders the listing by the column and in the direction it is asked
  for. Of the columns only \<open>created_at\<close> is modelled (the one the source asks for); for
  any other the stored order is kept. Equal keys keep their stored order.\<close>

definition sort_items :: "string \<Rightarrow> string \<Rightarrow> item list \<Rightarrow> item list" where
  "sort_items column ord its =
     (if column = ''created_at'' then
        (if ord = ''desc'' then sort_key (\<lambda>i. - item_created i) its
         else sort_key item_created its)
      else its)"

text \<open>\<open>.from('momo-backups').list(prefix, options)\<close>: the prefix and the options travel
  in the body of the request; the provider sorts the folder as asked and cuts the page
  \<open>offset, limit\<close> out of it.\<close>

definition sb_list :: "string \<Rightarrow> search_options \<Rightarrow> (error option \<times> item list option) promise" where
  "sb_list prefix opts w =
     (let w1 = emit (SbList prefix) w in
      case fault w KList of
        Some e \<Rightarrow> (Resolved (Some e, None), w1)
      | None \<Rightarrow>
          if ''momo-backups'' \<notin> set (buckets w)
          then (Resolved (Some (Error ''Bucket not found'' (Some 404)), None), w1)
          else (Resolved (None,
                  Some (take (opt_limit opts) (drop (opt_offset opts)
                          (sort_items (opt_column opts) (opt_order opts)
                             (folder_items prefix (objects w)))))), w1))"

text \<open>\<open>.from('momo-backups').download(key)\<close>: the bytes of the object the request
  addresses.\<close>

definition sb_download :: "string \<Rightarrow> (error option \<times> string option) promise" where
  "sb_download key w =
     (let w1 = emit (SbDownload key) w in
      case fault w KDownload of
        Some e \<Rightarrow> (Resolved (Some e, None), w1)
      | None \<Rightarrow>
          (case (if ''momo-backups'' \<in> set (buckets w)
                 then (case download_key key of None \<Rightarrow> None | Some k \<Rightarrow> map_of (objects w) k)
                 else None) of
             None \<Rightarrow> (Resolved (Some (Error ''Object not found'' (Some 404)), None), w1)
           | Some ob \<Rightarrow> (Resolved (None, Some (obj_bytes ob)), w1)))"

subsection \<open>BackupService (backup.ts)\<close>

datatype mode = Cloud | Local

fun mode_name :: "mode \<Rightarrow> string" where
  "mode_name Cloud = ''cloud''"
| "mode_name Local = ''local''"

record service =
  client :: "client option"
  deployMode :: mode
  localBackupDir :: path

text \<open>An environment variable is \<open>undefined\<close> or a string; it is truthy when it is a
  non-empty string.\<close>

fun truthy :: "string option \<Rightarrow> bool" where
  "truthy None = False"
| "truthy (Some s) = (s \<noteq> [])"

text \<open>
  \<^verbatim>\<open>constructor()\<close>, with the two module constants read from \<open>process.env\<close> as
  arguments. \<open>fs.ensureDirSync\<close> is outside every \<open>try\<close>: when it throws, no service
  is constructed.
\<close>

definition BackupService_new :: "string option \<Rightarrow> string option \<Rightarrow> service promise" where
  "BackupService_new SUPABASE_URL SUPABASE_KEY =
     bindE getCwd (\<lambda>dir0.
       let dir = path_join dir0 [''backups''] in
       bindE (fs_ensureDir dir) (\<lambda>_.
         case (SUPABASE_URL, SUPABASE_KEY) of
           (Some url, Some key) \<Rightarrow>
             if truthy SUPABASE_URL \<and> truthy SUPABASE_KEY \<and> startsWith url ''http''
             then catchE
                    (bindE (createClient url key) (\<lambda>c.
                       returnE \<lparr>client = Some c, deployMode = Cloud, localBackupDir = dir\<rparr>))
                    (\<lambda>e. returnE \<lparr>client = None, deployMode = Local, localBackupDir = dir\<rparr>)
             else returnE \<lparr>client = None, deployMode = Local, localBackupDir = dir\<rparr>
         | _ \<Rightarrow> returnE \<lparr>client = None, deployMode = Local, localBackupDir = dir\<rparr>))"

text \<open>The result \<open>{ success, size, message }\<close> of \<open>createBackup\<close>.\<close>

record backup_result =
  success :: bool
  bsize :: int
  message :: string

text \<open>\<^verbatim>\<open>new Date().toISOString().replace(/[:.]/g, '-').slice(0, 19)\<close> and
  \<^verbatim>\<open>`backup_${timestamp}_GMT.zip`\<close>\<close>

definition timestamp_of :: "string \<Rightarrow> string" where
  "timestamp_of isoStr = take 19 (map (\<lambda>c. if c = CHR '':'' \<or> c = CHR ''.'' then CHR ''-'' else c) isoStr)"

definition fileName_of :: "string \<Rightarrow> string" where
  "fileName_of isoStr = ''backup_'' @ timestamp_of isoStr @ ''_GMT.zip''"

text \<open>The characters of the output of \<open>toISOString\<close> (\<open>2024-01-02T03:04:05.678Z\<close>):
  digits, letters, \<open>-\<close>, \<open>.\<close> and \<open>:\<close>.\<close>

definition iso_chars :: "string \<Rightarrow> bool" where
  "iso_chars isoStr = list_all (\<lambda>c. safe_char c \<or> c = CHR '':'') isoStr"

text \<open>Lines 57-75: the bucket is looked up and created when the lookup says it is
  missing; any other lookup error, and a failed creation, are thrown.\<close>

definition ensureBucket :: "unit promise" where
  "ensureBucket =
     bindE (sb_getBucket ''momo-backups'') (\<lambda>bucketError.
       case bucketError of
         None \<Rightarrow> returnE ()
       | Some be \<Rightarrow>
           if str_includes (err_message be) ''not found'' \<or> err_status be = Some 404
           then bindE (sb_createBucket ''momo-backups'') (\<lambda>createError.
                  case createError of
                    None \<Rightarrow> returnE ()
                  | Some ce \<Rightarrow>
                      throwE (Error (''Supabase bucket 'momo-backups' missing and auto-creation failed: ''
                                       @ err_message ce @ ''. Please create it manually.'') None))
           else throwE be)"

text \<open>Lines 38-51: the archive is built in the working directory and measured. The
  result is the file name, the staging path and the size.\<close>

definition stageArchive :: "(string \<times> path \<times> int) promise" where
  "stageArchive =
     bindE getCwd (\<lambda>dir0.
     bindE getNowISO (\<lambda>isoStr.
       let dbPath = path_join dir0 [''database.db''];
           fileName = fileName_of isoStr;
           tempPath = path_join dir0 [fileName] in
       bindE (fs_pathExists dbPath False) (\<lambda>ex.
         if \<not> ex then throwE (Error ''Database file (database.db) not found'' None)
         else
           bindE (zipDatabase dbPath tempPath) (\<lambda>_.
           bindE (fs_stat tempPath) (\<lambda>stats.
             returnE (fileName, tempPath, st_size stats))))))"

text \<open>Lines 54-96, the cloud branch: bucket check, upload under \<open>userId/fileName\<close>,
  removal of the staging file.\<close>

definition putCloud :: "string \<Rightarrow> string \<Rightarrow> path \<Rightarrow> unit promise" where
  "putCloud userId fileName tempPath =
     bindE ensureBucket (\<lambda>_.
     bindE (fs_readFile tempPath) (\<lambda>fileContent.
       let cloudFileName = userId @ ''/'' @ fileName in
       bindE (sb_upload cloudFileName fileContent) (\<lambda>err.
         case err of
           Some e \<Rightarrow> throwE e
         | None \<Rightarrow> fs_remove tempPath False)))"

text \<open>Lines 98-105, the local branch: the staging file is moved into
  \<open>backups/userId/\<close>.\<close>

definition putLocal :: "service \<Rightarrow> string \<Rightarrow> string \<Rightarrow> path \<Rightarrow> unit promise" where
  "putLocal svc userId fileName tempPath =
     (let userBackupDir = path_join (localBackupDir svc) [userId] in
      bindE (fs_ensureDir userBackupDir) (\<lambda>_.
        let targetPath = path_join userBackupDir [fileName] in
        fs_move tempPath targetPath))"

text \<open>Lines 38-106, all that comes before the usage update: the archive is staged and
  put where the mode says. The result is the size measured at line 50.\<close>

definition storeArchive :: "service \<Rightarrow> string \<Rightarrow> int promise" where
  "storeArchive svc userId =
     bindE stageArchive (\<lambda>(fileName, tempPath, size).
     bindE
       (if deployMode svc = Cloud \<and> client svc \<noteq> None
        then putCloud userId fileName tempPath
        else putLocal svc userId fileName tempPath)
       (\<lambda>_. returnE size))"

text \<open>The body of the \<open>try\<close> block of \<open>createBackup\<close> (lines 35-111): the parts above,
  then the usage update (line 109) and the result (line 111).\<close>

definition createBackup_try :: "service \<Rightarrow> string \<Rightarrow> backup_result promise" where
  "createBackup_try svc userId =
     bindE (storeArchive svc userId) (\<lambda>size.
     bindE (updateStorageUsage userId size) (\<lambda>_.
       returnE \<lparr>success = True, bsize = size,
                message = ''Backup successful ('' @ mode_name (deployMode svc) @ '')''\<rparr>))"

definition createBackup :: "service \<Rightarrow> string \<Rightarrow> backup_result promise" where
  "createBackup svc userId =
     catchE (createBackup_try svc userId)
       (\<lambda>error. returnE \<lparr>success = False, bsize = 0, message = err_message error\<rparr>)"

text \<open>A record of a listing: \<open>{ id, name, size, created_at }\<close>.\<close>

record backup_record =
  rec_id :: string
  rec_name :: string
  rec_size :: int
  created_at :: int

text \<open>\<open>Array.prototype.sort(cmp)\<close>: a stable sort by the comparator.\<close>

fun insort_by :: "('a \<Rightarrow> 'a \<Rightarrow> int) \<Rightarrow> 'a \<Rightarrow> 'a list \<Rightarrow> 'a list" where
  "insort_by cmp x [] = [x]"
| "insort_by cmp x (y # ys) = (if cmp x y \<le> 0 then x # y # ys else y # insort_by cmp x ys)"

definition js_sort :: "('a \<Rightarrow> 'a \<Rightarrow> int) \<Rightarrow> 'a list \<Rightarrow> 'a list" where
  "js_sort cmp xs = foldr (insort_by cmp) xs []"

text \<open>The comparator of line 160:
  \<^verbatim>\<open>(a, b) => new Date(b.created_at).getTime() - new Date(a.created_at).getTime()\<close>\<close>

definition newest_first :: "backup_record \<Rightarrow> backup_record \<Rightarrow> int" where
  "newest_first a b = created_at b - created_at a"

text \<open>Lines 135-140: \<open>item.metadata?.size || 0\<close> is \<open>0\<close> when the size is absent.\<close>

definition item_record :: "item \<Rightarrow> backup_record" where
  "item_record i =
     \<lparr>rec_id = item_name i, rec_name = item_name i,
      rec_size = (case item_size i of None \<Rightarrow> 0 | Some n \<Rightarrow> n),
      created_at = item_created i\<rparr>"

text \<open>Lines 148-157: one \<open>stat\<close> per directory entry.\<close>

definition file_record :: "path \<Rightarrow> string \<Rightarrow> backup_record promise" where
  "file_record userBackupDir file =
     (let filePath = path_join userBackupDir [file] in
      bindE (fs_stat filePath) (\<lambda>stats.
        returnE \<lparr>rec_id = file, rec_name = file, rec_size = st_size stats,
                 created_at = st_birthtime stats\<rparr>))"

text \<open>The body of the \<open>try\<close> block of the local branch of \<open>listBackups\<close> (lines 144-160).\<close>

definition listBackups_try :: "service \<Rightarrow> string \<Rightarrow> backup_record list promise" where
  "listBackups_try svc userId =
     (let userBackupDir = path_join (localBackupDir svc) [userId] in
      bindE (fs_pathExists userBackupDir (join_sep [userId])) (\<lambda>ex.
        if \<not> ex then returnE []
        else
          bindE (fs_readdir userBackupDir) (\<lambda>files.
          bindE (mapE (file_record userBackupDir) files) (\<lambda>fileStats.
            returnE (js_sort newest_first fileStats)))))"

text \<open>Lines 124-128: the options of the cloud listing.\<close>

definition list_options :: search_options where
  "list_options = \<lparr>opt_limit = 100, opt_offset = 0, opt_column = ''created_at'', opt_order = ''desc''\<rparr>"

text \<open>\<open>listBackups\<close> (lines 119-166). The cloud branch is outside every \<open>try\<close>, and
  \<open>data.map\<close> throws when \<open>data\<close> is \<open>null\<close>.\<close>

definition listBackups :: "service \<Rightarrow> string \<Rightarrow> backup_record list promise" where
  "listBackups svc userId =
     (if deployMode svc = Cloud \<and> client svc \<noteq> None then
        bindE (sb_list userId list_options) (\<lambda>r.
          case fst r of
            Some error \<Rightarrow> returnE []
          | None \<Rightarrow>
              (case snd r of
                 None \<Rightarrow> throwE (Error ''Cannot read properties of null (reading 'map')'' None)
               | Some data \<Rightarrow> returnE (map item_record data)))
      else
        catchE (listBackups_try svc userId) (\<lambda>e. returnE []))"

text \<open>The body of the \<open>try\<close> block of \<open>restoreBackup\<close> (lines 170-202). The restore
  itself is a placeholder in the source: only a log line. \<open>restoreSourcePath\<close> is the
  path string: its segments, and whether it ends in a separator.\<close>

definition restoreBackup_try :: "service \<Rightarrow> string \<Rightarrow> string \<Rightarrow> bool promise" where
  "restoreBackup_try svc userId backupId =
     bindE
       (if deployMode svc = Cloud \<and> client svc \<noteq> None then
          bindE (sb_download (userId @ ''/'' @ backupId)) (\<lambda>r.
            case fst r of
              Some error \<Rightarrow> throwE error
            | None \<Rightarrow>
                (case snd r of
                   None \<Rightarrow> throwE (Error ''Cannot read properties of null (reading 'arrayBuffer')'' None)
                 | Some buffer \<Rightarrow>
                     bindE getCwd (\<lambda>dir0.
                       let restoreSourcePath = path_join dir0 [''restore_temp.zip''] in
                       bindE (fs_writeFile restoreSourcePath buffer) (\<lambda>_.
                         returnE (restoreSourcePath, join_sep [''restore_temp.zip''])))))
        else
          (let restoreSourcePath = path_join (localBackupDir svc) [userId, backupId];
               sep = join_sep [userId, backupId] in
           bindE (fs_pathExists restoreSourcePath sep) (\<lambda>ex.
             if \<not> ex then throwE (Error ''Backup file not found locally'' None)
             else returnE (restoreSourcePath, sep))))
       (\<lambda>(restoreSourcePath, sep).
          if deployMode svc = Cloud
          then bindE (fs_remove restoreSourcePath sep) (\<lambda>_. returnE True)
          else returnE True)"

definition restoreBackup :: "service \<Rightarrow> string \<Rightarrow> string \<Rightarrow> bool promise" where
  "restoreBackup svc userId backupId =
     catchE (restoreBackup_try svc userId backupId) (\<lambda>e. returnE False)"

text \<open>The events a call added to the trace.\<close>

definition new_events :: "world \<Rightarrow> world \<Rightarrow> event list" where
  "new_events w w' = drop (length (trace w)) (trace w')"

subsection \<open>The service in use (routes.ts)\<close>

text \<open>
  The module exports one \<open>backupService\<close>, and the three backup routes call its
  methods with the session's user. A \<open>system\<close> is that object together with the
  world; a request runs one method and keeps the world it leaves. No method assigns a
  field of the object.
\<close>

datatype request = CreateBackup string | ListBackups string | RestoreBackup string string

record system =
  the_service :: service
  the_world :: world

fun step :: "system \<Rightarrow> request \<Rightarrow> system" where
  "step s (CreateBackup userId) =
     s\<lparr>the_world := snd (createBackup (the_service s) userId (the_world s))\<rparr>"
| "step s (ListBackups userId) =
     s\<lparr>the_world := snd (listBackups (the_service s) userId (the_world s))\<rparr>"
| "step s (RestoreBackup userId backupId) =
     s\<lparr>the_world := snd (restoreBackup (the_service s) userId backupId (the_world s))\<rparr>"

definition run :: "system \<Rightarrow> request list \<Rightarrow> system" where
  "run s reqs = foldl step s reqs"

text \<open>The calls of \<open>storage.updateStorageUsage\<close> among some events.\<close>

fun is_usage_update :: "event \<Rightarrow> bool" where
  "is_usage_update (DbUpdateUsage u n) = True"
| "is_usage_update ev = False"

definition usage_updates :: "event list \<Rightarrow> event list" where
  "usage_updates evs = filter is_usage_update evs"

subsection \<open>Frames\<close>

text \<open>A promise settles when it is resolved or rejected.\<close>

definition settles :: "'a promise \<Rightarrow> world \<Rightarrow> bool" where
  "settles m w = (\<forall>e. fst (m w) \<noteq> Unsettled e)"

text \<open>\<open>evolves P w w'\<close>: from \<open>w\<close> to \<open>w'\<close> the process environment, the injected
  faults and the users table are unchanged, and the trace grew by events that satisfy
  \<open>P\<close>. The file system and the bucket may differ.\<close>

definition evolves :: "(event \<Rightarrow> bool) \<Rightarrow> world \<Rightarrow> world \<Rightarrow> bool" where
  "evolves P w w' =
     (cwd w' = cwd w \<and> nowISO w' = nowISO w \<and> nowMs w' = nowMs w \<and> archiver w' = archiver w
      \<and> fault w' = fault w \<and> users w' = users w
      \<and> (\<exists>evs. trace w' = trace w @ evs \<and> list_all P evs))"

text \<open>The staging path of a backup started in \<open>w\<close>, and the library calls
  \<open>createBackup\<close> can make before the usage update: those of the staging part and
  those of the branch the service takes.\<close>

definition tempPath_of :: "world \<Rightarrow> path" where
  "tempPath_of w = path_join (cwd w) [fileName_of (nowISO w)]"

definition stage_event :: "world \<Rightarrow> event \<Rightarrow> bool" where
  "stage_event w ev =
     (ev = FsPathExists (path_join (cwd w) [''database.db''])
      \<or> ev = FsZip (path_join (cwd w) [''database.db'']) (tempPath_of w)
      \<or> ev = FsStat (tempPath_of w))"

definition put_event :: "service \<Rightarrow> string \<Rightarrow> world \<Rightarrow> event \<Rightarrow> bool" where
  "put_event svc userId w ev =
     (if deployMode svc = Cloud \<and> client svc \<noteq> None
      then ev = SbGetBucket ''momo-backups'' \<or> ev = SbCreateBucket ''momo-backups''
           \<or> ev = FsReadFile (tempPath_of w)
           \<or> (\<exists>c. ev = SbUpload (userId @ ''/'' @ fileName_of (nowISO w)) c)
           \<or> ev = FsRemove (tempPath_of w)
      else ev = FsEnsureDir (path_join (localBackupDir svc) [userId])
           \<or> ev = FsMove (tempPath_of w)
                  (path_join (path_join (localBackupDir svc) [userId]) [fileName_of (nowISO w)]))"

definition backup_event :: "service \<Rightarrow> string \<Rightarrow> world \<Rightarrow> event \<Rightarrow> bool" where
  "backup_event svc userId w ev = (stage_event w ev \<or> put_event svc userId w ev)"

text \<open>The record \<open>listBackups\<close> builds for the directory entry \<open>n\<close> of \<open>d\<close> when
  its \<open>stat\<close> succeeds.\<close>

definition stat_record :: "world \<Rightarrow> path \<Rightarrow> string \<Rightarrow> backup_record" where
  "stat_record w d n =
     (case lookup_fs w (path_join d [n]) of
        Some nd \<Rightarrow> \<lparr>rec_id = n, rec_name = n, rec_size = st_size (node_stats nd),
                     created_at = st_birthtime (node_stats nd)\<rparr>
      | None \<Rightarrow> \<lparr>rec_id = n, rec_name = n, rec_size = 0, created_at = 0\<rparr>)"

subsection \<open>Namespaces\<close>

text \<open>A path is in the directory of a user when it is \<open>backups/userId\<close> or below it;
  a key is under the prefix of a user when it starts with \<open>userId/\<close>. A download
  (an upload) for a key reaches the prefix of a user when the object the request
  addresses has a key under that prefix.\<close>

definition in_owner_dir :: "service \<Rightarrow> string \<Rightarrow> path \<Rightarrow> bool" where
  "in_owner_dir svc userId p =
     (take (Suc (length (localBackupDir svc))) p = localBackupDir svc @ [userId])"

definition in_owner_prefix :: "string \<Rightarrow> string \<Rightarrow> bool" where
  "in_owner_prefix userId k = startsWith k (userId @ ''/'')"

definition reaches_prefix :: "string \<Rightarrow> string option \<Rightarrow> bool" where
  "reaches_prefix userId target = (case target of None \<Rightarrow> False | Some k \<Rightarrow> in_owner_prefix userId k)"

text \<open>Every name in the file system is a plain segment.\<close>

definition plain_names :: "world \<Rightarrow> bool" where
  "plain_names w = list_all (\<lambda>e. list_all plain_seg (fst e)) (fsys w)"

text \<open>\<open>owner_event svc w userId ev\<close>: the library call \<open>ev\<close>, made by a request of
  \<open>userId\<close> that started in \<open>w\<close>, touches only the process's own files in the working
  directory (the database, the staging archive, the restore download), the directory
  of that user, objects under the prefix of that user, the bucket itself, or the row of
  that user.\<close>

fun owner_event :: "service \<Rightarrow> world \<Rightarrow> string \<Rightarrow> event \<Rightarrow> bool" where
  "owner_event svc w userId (FsEnsureDir p) = in_owner_dir svc userId p"
| "owner_event svc w userId (FsPathExists p) =
     (p = cwd w @ [''database.db''] \<or> in_owner_dir svc userId p)"
| "owner_event svc w userId (FsZip src out) = (src = cwd w @ [''database.db''] \<and> out = tempPath_of w)"
| "owner_event svc w userId (FsStat p) = (p = tempPath_of w \<or> in_owner_dir svc userId p)"
| "owner_event svc w userId (FsReadFile p) = (p = tempPath_of w)"
| "owner_event svc w userId (FsRemove p) =
     (p = tempPath_of w \<or> p = cwd w @ [''restore_temp.zip''] \<or> in_owner_dir svc userId p)"
| "owner_event svc w userId (FsMove src dst) = (src = tempPath_of w \<and> in_owner_dir svc userId dst)"
| "owner_event svc w userId (FsReaddir p) = in_owner_dir svc userId p"
| "owner_event svc w userId (FsWriteFile p d) = (p = cwd w @ [''restore_temp.zip''])"
| "owner_event svc w userId (SbCreateClient url key) = False"
| "owner_event svc w userId (SbGetBucket b) = (b = ''momo-backups'')"
| "owner_event svc w userId (SbCreateBucket b) = (b = ''momo-backups'')"
| "owner_event svc w userId (SbUpload k c) = reaches_prefix userId (upload_key k)"
| "owner_event svc w userId (SbList prefix) = (prefix = userId)"
| "owner_event svc w userId (SbDownload k) = reaches_prefix userId (download_key k)"
| "owner_event svc w userId (DbUpdateUsage u n) = (u = userId)"

text \<open>\<open>touches_owner svc other ev\<close>: the library call \<open>ev\<close> touches the directory of
  \<open>other\<close>, an object under the prefix of \<open>other\<close>, or the row of \<open>other\<close>.\<close>

fun touches_owner :: "service \<Rightarrow> string \<Rightarrow> event \<Rightarrow> bool" where
  "touches_owner svc other (FsEnsureDir p) = in_owner_dir svc other p"
| "touches_owner svc other (FsPathExists p) = in_owner_dir svc other p"
| "touches_owner svc other (FsZip src out) = (in_owner_dir svc other src \<or> in_owner_dir svc other out)"
| "touches_owner svc other (FsStat p) = in_owner_dir svc other p"
| "touches_owner svc other (FsReadFile p) = in_owner_dir svc other p"
| "touches_owner svc other (FsRemove p) = in_owner_dir svc other p"
| "touches_owner svc other (FsMove src dst) = (in_owner_dir svc other src \<or> in_owner_dir svc other dst)"
| "touches_owner svc other (FsReaddir p) = in_owner_dir svc other p"
| "touches_owner svc other (FsWriteFile p d) = in_owner_dir svc other p"
| "touches_owner svc other (SbCreateClient url key) = False"
| "touches_owner svc other (SbGetBucket b) = False"
| "touches_owner svc other (SbCreateBucket b) = False"
| "touches_owner svc other (SbUpload k c) = reaches_prefix other (upload_key k)"
| "touches_owner svc other (SbList prefix) = (prefix = other)"
| "touches_owner svc other (SbDownload k) = reaches_prefix other (download_key k)"
| "touches_owner svc other (DbUpdateUsage u n) = (u = other)"

subsection \<open>Concrete worlds and services\<close>

definition userA :: user where
  "userA = \<lparr>user_id = ''A'', businessName = ''Shop A'', pinHash = ''h1'', email = None,
            createdAt = 1, storageUsed = 0, storageLimit = 100, lastBusinessNameChange = None\<rparr>"

definition userB :: user where
  "userB = \<lparr>user_id = ''B'', businessName = ''Shop B'', pinHash = ''h2'', email = Some ''b@x'',
            createdAt = 2, storageUsed = 7, storageLimit = 100, lastBusinessNameChange = None\<rparr>"

definition no_fault :: "call \<Rightarrow> error option" where
  "no_fault k = None"

text \<open>The archiver of the concrete worlds: a marker, followed by the bytes of a file.\<close>

fun zip_bytes :: "node option \<Rightarrow> string" where
  "zip_bytes (Some (File b t)) = ''PK'' @ b"
| "zip_bytes (Some (Dir n t)) = ''PK''"
| "zip_bytes None = ''PK''"

text \<open>A server in \<open>/srv/app\<close> with its database file, an existing bucket and two users.\<close>

definition world0 :: world where
  "world0 =
     \<lparr>cwd = [''srv'', ''app''], nowISO = ''2024-01-02T03:04:05.678Z'', nowMs = 1704164645678,
      archiver = zip_bytes,
      fsys = [([''srv''], Dir 4096 0), ([''srv'', ''app''], Dir 4096 0),
              ([''srv'', ''app'', ''database.db''], File ''SQLite format 3'' 1000)],
      buckets = [''momo-backups''], objects = [], users = [userA, userB],
      fault = no_fault, trace = []\<rparr>"

text \<open>The same server without its database file.\<close>

definition world_nodb :: world where
  "world_nodb = world0\<lparr>fsys := [([''srv''], Dir 4096 0), ([''srv'', ''app''], Dir 4096 0)]\<rparr>"

definition svcLocal :: service where
  "svcLocal = \<lparr>client = None, deployMode = Local, localBackupDir = [''srv'', ''app'', ''backups'']\<rparr>"

definition svcCloud :: service where
  "svcCloud = \<lparr>client = Some (Client ''https://x.supabase.co'' ''k''), deployMode = Cloud,
               localBackupDir = [''srv'', ''app'', ''backups'']\<rparr>"

text \<open>The upload is refused by the provider.\<close>

definition upload_fault :: "call \<Rightarrow> error option" where
  "upload_fault k = (if k = KUpload then Some (Error ''upload refused'' (Some 500)) else None)"

definition world_upload_fails :: world where
  "world_upload_fails = world0\<lparr>fault := upload_fault\<rparr>"

text \<open>The disk fills up while the archive is written.\<close>

definition stream_fault :: "call \<Rightarrow> error option" where
  "stream_fault k = (if k = KWriteStream then Some (Error ''ENOSPC: no space left on device'' None) else None)"

definition world_disk_full :: world where
  "world_disk_full = world0\<lparr>fault := stream_fault\<rparr>"

text \<open>The archiver fails.\<close>

definition zip_fault :: "call \<Rightarrow> error option" where
  "zip_fault k = (if k = KZip then Some (Error ''archiver failed'' None) else None)"

definition world_zip_fails :: world where
  "world_zip_fails = world0\<lparr>fault := zip_fault\<rparr>"

text \<open>The upload is refused and the connection to the users database is lost as well.\<close>

definition upload_usage_fault :: "call \<Rightarrow> error option" where
  "upload_usage_fault k =
     (if k = KUpload then Some (Error ''upload refused'' (Some 500))
      else if k = KUpdateUsage then Some (Error ''Connection terminated'' None)
      else None)"

definition world_upload_usage_fail :: world where
  "world_upload_usage_fail = world0\<lparr>fault := upload_usage_fault\<rparr>"

text \<open>A server where \<open>database.db\<close> is a directory.\<close>

definition world_db_dir :: world where
  "world_db_dir = world0\<lparr>fsys := [([''srv''], Dir 4096 0), ([''srv'', ''app''], Dir 4096 0),
                                    ([''srv'', ''app'', ''database.db''], Dir 4096 1000)]\<rparr>"

text \<open>The connection to the users database is lost.\<close>

definition usage_fault :: "call \<Rightarrow> error option" where
  "usage_fault k = (if k = KUpdateUsage then Some (Error ''Connection terminated'' None) else None)"

definition world_usage_fails :: world where
  "world_usage_fails = world0\<lparr>fault := usage_fault\<rparr>"

text \<open>The Supabase client cannot be constructed.\<close>

definition client_fault :: "call \<Rightarrow> error option" where
  "client_fault k = (if k = KCreateClient then Some (Error ''Invalid supabaseUrl'' None) else None)"

definition world_noclient :: world where
  "world_noclient = world0\<lparr>fault := client_fault\<rparr>"

text \<open>One object in the bucket, a backup of user \<open>A\<close>.\<close>

definition world_cloud1 :: world where
  "world_cloud1 = world0\<lparr>objects :=
      [(''A/backup_2024-01-01T00-00-00_GMT.zip'',
        \<lparr>obj_bytes = ''PKold'', obj_size = Some 5, obj_created = 1704067200000\<rparr>)]\<rparr>"

text \<open>Local backups on disk: three of user \<open>A\<close>, made on 1, 2 and 3 January 2024 and
  stored in another order, and one of user \<open>B\<close>.\<close>

definition world_local3 :: world where
  "world_local3 = world0\<lparr>fsys :=
     [([''srv''], Dir 4096 0), ([''srv'', ''app''], Dir 4096 0),
      ([''srv'', ''app'', ''database.db''], File ''SQLite format 3'' 1000),
      ([''srv'', ''app'', ''backups''], Dir 4096 1000),
      ([''srv'', ''app'', ''backups'', ''A''], Dir 4096 1704067200000),
      ([''srv'', ''app'', ''backups'', ''A'', ''backup_2024-01-02T00-00-00_GMT.zip''],
       File ''PKtwo'' 1704153600000),
      ([''srv'', ''app'', ''backups'', ''A'', ''backup_2024-01-03T00-00-00_GMT.zip''],
       File ''PKthree'' 1704240000000),
      ([''srv'', ''app'', ''backups'', ''A'', ''backup_2024-01-01T00-00-00_GMT.zip''],
       File ''PKone'' 1704067200000),
      ([''srv'', ''app'', ''backups'', ''B''], Dir 4096 1704067200000),
      ([''srv'', ''app'', ''backups'', ''B'', ''backup_2024-01-01T12-00-00_GMT.zip''],
       File ''PKother'' 1704110400000)]\<rparr>"

text \<open>The same backups as objects of the bucket.\<close>

definition item1 :: item where
  "item1 = \<lparr>item_name = ''backup_2024-01-01T00-00-00_GMT.zip'', item_size = Some 5,
            item_created = 1704067200000\<rparr>"

definition item2 :: item where
  "item2 = \<lparr>item_name = ''backup_2024-01-02T00-00-00_GMT.zip'', item_size = Some 5,
            item_created = 1704153600000\<rparr>"

definition item3 :: item where
  "item3 = \<lparr>item_name = ''backup_2024-01-03T00-00-00_GMT.zip'', item_size = None,
            item_created = 1704240000000\<rparr>"

definition world_cloud3 :: world where
  "world_cloud3 = world0\<lparr>objects :=
     [(''A/backup_2024-01-02T00-00-00_GMT.zip'',
       \<lparr>obj_bytes = ''PKtwo'', obj_size = Some 5, obj_created = 1704153600000\<rparr>),
      (''B/backup_2024-01-01T12-00-00_GMT.zip'',
       \<lparr>obj_bytes = ''PKother'', obj_size = Some 7, obj_created = 1704110400000\<rparr>),
      (''A/backup_2024-01-03T00-00-00_GMT.zip'',
       \<lparr>obj_bytes = ''PKthree'', obj_size = None, obj_created = 1704240000000\<rparr>),
      (''A/backup_2024-01-01T00-00-00_GMT.zip'',
       \<lparr>obj_bytes = ''PKone'', obj_size = Some 5, obj_created = 1704067200000\<rparr>)]\<rparr>"

text \<open>The listing call fails.\<close>

definition list_fault :: "call \<Rightarrow> error option" where
  "list_fault k = (if k = KList \<or> k = KReaddir then Some (Error ''unavailable'' (Some 503)) else None)"

definition world_local3_down :: world where
  "world_local3_down = world_local3\<lparr>fault := list_fault\<rparr>"

definition world_cloud3_down :: world where
  "world_cloud3_down = world_cloud3\<lparr>fault := list_fault\<rparr>"

section \<open>Properties\<close>

subsection \<open>Basic facts\<close>

lemmas monad_defs = bindE_def returnE_def throwE_def catchE_def

lemma emit_fields [simp]:
  "trace (emit ev w) = trace w @ [ev]"
  "cwd (emit ev w) = cwd w" "nowISO (emit ev w) = nowISO w" "nowMs (emit ev w) = nowMs w"
  "archiver (emit ev w) = archiver w" "fsys (emit ev w) = fsys w" "buckets (emit ev w) = buckets w"
  "objects (emit ev w) = objects w" "users (emit ev w) = users w" "fault (emit ev w) = fault w"
  by (simp_all add: emit_def)

lemma lookup_fs_root [simp]: "lookup_fs w [] = Some (Dir 4096 0)"
  by (simp add: lookup_fs_def)

lemma lookup_fs_emit [simp]: "lookup_fs (emit ev w) p = lookup_fs w p"
  by (simp add: lookup_fs_def)

lemma map_of_filter_fst: "map_of (filter (\<lambda>e. fst e \<noteq> p) fs) q = (if q = p then None else map_of fs q)"
  by (induction fs) auto

lemma lookup_fs_put:
  "lookup_fs (w\<lparr>fsys := fs_put p n fs\<rparr>) q =
     (if q = [] then Some (Dir 4096 0) else if q = p then Some n else map_of fs q)"
  by (simp add: lookup_fs_def fs_put_def map_of_filter_fst)

lemma split_on_none: "c \<notin> set s \<Longrightarrow> split_on c s = [s]"
  by (induction s) auto

lemma path_join_plain1: "plain_seg s \<Longrightarrow> path_join p [s] = p @ [s]"
  by (simp add: path_join_def plain_seg_def split_on_none norm_step_def)

lemma path_join_plain2: "plain_seg s \<Longrightarrow> plain_seg t \<Longrightarrow> path_join p [s, t] = p @ [s, t]"
  by (simp add: path_join_def plain_seg_def split_on_none norm_step_def)

lemma path_join_database [simp]: "path_join p [''database.db''] = p @ [''database.db'']"
  by (simp add: path_join_plain1 plain_seg_def)

subsection \<open>Frames\<close>

lemma evolves_refl [simp]: "evolves P w w"
  by (simp add: evolves_def)

lemma evolves_trans: "evolves P a b \<Longrightarrow> evolves P b c \<Longrightarrow> evolves P a c"
  by (auto simp: evolves_def)

lemma evolves_mono: "evolves P w w' \<Longrightarrow> (\<And>ev. P ev \<Longrightarrow> Q ev) \<Longrightarrow> evolves Q w w'"
  by (auto simp: evolves_def list_all_iff)

lemma evolves_emit [simp]: "evolves P w (emit ev w) = P ev"
  by (simp add: evolves_def)

lemma evolves_emit_fsys [simp]: "evolves P w (emit ev w\<lparr>fsys := fs\<rparr>) = P ev"
  by (simp add: evolves_def)

lemma evolves_emit_buckets [simp]: "evolves P w (emit ev w\<lparr>buckets := bs\<rparr>) = P ev"
  by (simp add: evolves_def)

lemma evolves_emit_objects [simp]: "evolves P w (emit ev w\<lparr>objects := os\<rparr>) = P ev"
  by (simp add: evolves_def)

lemma evolves_new_events: "evolves P w w' \<Longrightarrow> list_all P (new_events w w')"
  by (auto simp: evolves_def new_events_def)

lemma evolves_bindE:
  assumes "evolves P w (snd (m w))"
    and "\<And>x. fst (m w) = Resolved x \<Longrightarrow> evolves P (snd (m w)) (snd (f x (snd (m w))))"
  shows "evolves P w (snd (bindE m f w))"
proof (cases "m w")
  case (Pair r w1)
  show ?thesis
  proof (cases r)
    case (Rejected e)
    with Pair assms(1) show ?thesis by (simp add: bindE_def)
  next
    case (Unsettled e)
    with Pair assms(1) show ?thesis by (simp add: bindE_def)
  next
    case (Resolved x)
    with Pair assms(2)[of x] have "evolves P w1 (snd (f x w1))" by simp
    moreover from Pair assms(1) have "evolves P w w1" by simp
    ultimately have "evolves P w (snd (f x w1))" by (rule evolves_trans[rotated])
    with Pair Resolved show ?thesis by (simp add: bindE_def)
  qed
qed

lemma evolves_returnE [simp]: "evolves P w (snd (returnE x w))"
  by (simp add: returnE_def)

lemma evolves_throwE [simp]: "evolves P w (snd (throwE e w))"
  by (simp add: throwE_def)

lemma evolves_getCwd [simp]: "evolves P w (snd (getCwd w))" "fst (getCwd w) = Resolved (cwd w)" "snd (getCwd w) = w"
  by (simp_all add: getCwd_def)

lemma evolves_getNowISO [simp]: "evolves P w (snd (getNowISO w))" "fst (getNowISO w) = Resolved (nowISO w)" "snd (getNowISO w) = w"
  by (simp_all add: getNowISO_def)

subsection \<open>Library calls\<close>

lemma named_emit [simp]: "named (emit ev w) p sep = named w p sep"
  by (simp add: named_def)

lemma named_plain [simp]: "named w p False = lookup_fs w p"
  by (simp add: named_def)

lemma named_None: "lookup_fs w p = None \<Longrightarrow> named w p sep = None"
  by (simp add: named_def)

lemma named_dir: "is_dir (lookup_fs w p) \<Longrightarrow> named w p sep = lookup_fs w p"
  by (simp add: named_def)

lemma named_Some: "named w p sep = Some nd \<Longrightarrow> lookup_fs w p = Some nd"
  by (simp add: named_def split: if_splits)

lemma join_sep_plain [simp]: "plain_seg s \<Longrightarrow> join_sep [s] = False"
  "plain_seg s \<Longrightarrow> plain_seg t \<Longrightarrow> join_sep [s, t] = False"
  by (auto simp: join_sep_def plain_seg_def dest: last_in_set)

lemma fs_pathExists_spec:
  "fs_pathExists p sep w = (Resolved (named w p sep \<noteq> None), emit (FsPathExists p) w)"
  by (simp add: fs_pathExists_def)

lemma fs_stat_spec:
  assumes "fs_stat p w = (r, w')"
  shows "w' = emit (FsStat p) w"
    and "r = Resolved st \<Longrightarrow> \<exists>n. lookup_fs w p = Some n \<and> st = node_stats n \<and> fault w KStat = None"
  using assms by (auto simp: fs_stat_def Let_def split: option.splits)

lemma open_error_root [simp]: "open_error w [] \<noteq> None"
  by (simp add: open_error_def)

lemma open_error_emit [simp]: "open_error (emit ev w) p = open_error w p"
  by (simp add: open_error_def)

lemma zipDatabase_spec:
  assumes "zipDatabase source out w = (r, w')"
  shows "evolves (\<lambda>ev. ev = FsZip source out) w w'"
    and "r = Resolved u \<Longrightarrow> out \<noteq> [] \<and> fault w KZip = None \<and> fault w KWriteStream = None
            \<and> w' = emit (FsZip source out) w
                      \<lparr>fsys := fs_put out (File (archiver w (lookup_fs w source)) (born w out)) (fsys w)\<rparr>"
  using assms by (auto simp: zipDatabase_def Let_def split: option.splits)

lemma evolves_prims [simp]:
  "evolves P w (snd (fs_pathExists p sep w)) = P (FsPathExists p)"
  "evolves P w (snd (fs_ensureDir p w)) = P (FsEnsureDir p)"
  "evolves P w (snd (fs_stat p w)) = P (FsStat p)"
  "evolves P w (snd (fs_readFile p w)) = P (FsReadFile p)"
  "evolves P w (snd (fs_remove p sep w)) = P (FsRemove p)"
  "evolves P w (snd (fs_move p q w)) = P (FsMove p q)"
  "evolves P w (snd (fs_readdir p w)) = P (FsReaddir p)"
  "evolves P w (snd (fs_writeFile p d w)) = P (FsWriteFile p d)"
  "evolves P w (snd (zipDatabase p q w)) = P (FsZip p q)"
  "evolves P w (snd (sb_getBucket b w)) = P (SbGetBucket b)"
  "evolves P w (snd (sb_createBucket b w)) = P (SbCreateBucket b)"
  "evolves P w (snd (sb_upload k c w)) = P (SbUpload k c)"
  "evolves P w (snd (sb_list k opts w)) = P (SbList k)"
  "evolves P w (snd (sb_download k w)) = P (SbDownload k)"
  by (simp_all add: fs_pathExists_def fs_ensureDir_def fs_stat_def fs_readFile_def fs_remove_def
      fs_move_def fs_readdir_def fs_writeFile_def zipDatabase_def sb_getBucket_def sb_createBucket_def
      sb_upload_def sb_list_def sb_download_def Let_def split: option.splits node.splits)

lemma stageArchive_evolves: "evolves (stage_event w) w (snd (stageArchive w))"
  unfolding stageArchive_def
  by (intro evolves_bindE) (simp_all add: Let_def evolves_bindE stage_event_def tempPath_of_def)

lemma ensureBucket_evolves:
  "evolves (\<lambda>ev. ev = SbGetBucket ''momo-backups'' \<or> ev = SbCreateBucket ''momo-backups'') w
     (snd (ensureBucket w))"
  unfolding ensureBucket_def
  by (intro evolves_bindE) (auto simp: evolves_bindE split: option.splits)

lemma putCloud_evolves:
  "evolves (\<lambda>ev. ev = SbGetBucket ''momo-backups'' \<or> ev = SbCreateBucket ''momo-backups''
              \<or> ev = FsReadFile tp \<or> (\<exists>c. ev = SbUpload (userId @ ''/'' @ fn) c) \<or> ev = FsRemove tp)
     w (snd (putCloud userId fn tp w))"
  unfolding putCloud_def Let_def
  apply (intro evolves_bindE)
     apply (rule evolves_mono[OF ensureBucket_evolves])
     apply (auto split: option.splits)
  done

lemma putLocal_evolves:
  "evolves (\<lambda>ev. ev = FsEnsureDir (path_join (localBackupDir svc) [userId])
              \<or> ev = FsMove tp (path_join (path_join (localBackupDir svc) [userId]) [fn]))
     w (snd (putLocal svc userId fn tp w))"
  unfolding putLocal_def Let_def
  by (intro evolves_bindE) simp_all

lemma stageArchive_spec:
  assumes "stageArchive w = (Resolved (fn, tp, sz), w')"
  shows "fn = fileName_of (nowISO w) \<and> tp = path_join (cwd w) [fn]
         \<and> (\<exists>nd. lookup_fs w (cwd w @ [''database.db'']) = Some nd
                \<and> sz = int (length (archiver w (Some nd))))"
proof -
  let ?db = "cwd w @ [''database.db'']"
  let ?tp = "path_join (cwd w) [fileName_of (nowISO w)]"
  let ?w1 = "emit (FsPathExists ?db) w"
  have ex: "lookup_fs w ?db \<noteq> None"
    using assms
    by (auto simp: stageArchive_def getCwd_def getNowISO_def fs_pathExists_spec monad_defs Let_def
        split: if_splits)
  obtain r1 w2 where z: "zipDatabase ?db ?tp ?w1 = (r1, w2)" by (cases "zipDatabase ?db ?tp ?w1")
  obtain r2 w3 where s: "fs_stat ?tp w2 = (r2, w3)" by (cases "fs_stat ?tp w2")
  have "r1 = Resolved () \<and> (\<exists>st. r2 = Resolved st \<and> st_size st = sz)
        \<and> fn = fileName_of (nowISO w) \<and> tp = ?tp"
    using assms ex z s
    by (auto simp: stageArchive_def getCwd_def getNowISO_def fs_pathExists_spec monad_defs Let_def
        split: outcome.splits)
  then obtain st where r1: "r1 = Resolved ()" and r2: "r2 = Resolved st" and sz: "st_size st = sz"
    and fn: "fn = fileName_of (nowISO w)" and tp: "tp = ?tp"
    by blast
  from ex obtain nd where src: "lookup_fs w ?db = Some nd" by auto
  from zipDatabase_spec(2)[OF z r1] have ne: "?tp \<noteq> []"
    and w2: "w2 = emit (FsZip ?db ?tp) ?w1
               \<lparr>fsys := fs_put ?tp (File (archiver ?w1 (lookup_fs ?w1 ?db)) (born ?w1 ?tp)) (fsys ?w1)\<rparr>"
    by blast+
  from fs_stat_spec(2)[OF s r2] obtain n where
    n: "lookup_fs w2 ?tp = Some n" and st: "st = node_stats n"
    by blast
  have "n = File (archiver w (Some nd)) (born ?w1 ?tp)"
    using n ne src unfolding w2 by (simp add: lookup_fs_put)
  with st sz have "sz = int (length (archiver w (Some nd)))" by auto
  with src fn tp show ?thesis by simp
qed

lemma evolves_static:
  assumes "evolves P w w'"
  shows "cwd w' = cwd w" "nowISO w' = nowISO w" "fault w' = fault w" "users w' = users w"
  using assms by (simp_all add: evolves_def)

lemma storeArchive_evolves:
  "evolves (backup_event svc userId w) w (snd (storeArchive svc userId w))"
proof -
  let ?B = "backup_event svc userId w"
  obtain r1 w1 where s1: "stageArchive w = (r1, w1)" by (cases "stageArchive w")
  have "evolves (stage_event w) w w1"
    using stageArchive_evolves[of w] s1 by simp
  then have e1: "evolves ?B w w1"
    by (rule evolves_mono) (simp add: backup_event_def)
  show ?thesis
  proof (cases r1)
    case (Rejected e)
    with s1 have "snd (storeArchive svc userId w) = w1" by (simp add: storeArchive_def bindE_def)
    with e1 show ?thesis by (simp only:)
  next
    case (Unsettled e)
    with s1 have "snd (storeArchive svc userId w) = w1" by (simp add: storeArchive_def bindE_def)
    with e1 show ?thesis by (simp only:)
  next
    case (Resolved st)
    obtain fn tp sz where st: "st = (fn, tp, sz)" by (cases st)
    from s1 Resolved st have s1': "stageArchive w = (Resolved (fn, tp, sz), w1)" by simp
    note spec = stageArchive_spec[OF s1']
    from spec have fn: "fn = fileName_of (nowISO w)" by (rule conjunct1)
    from spec have "tp = path_join (cwd w) [fn]" by blast
    then have tp: "tp = tempPath_of w" by (simp only: tempPath_of_def fn)
    let ?put = "if deployMode svc = Cloud \<and> client svc \<noteq> None
        then putCloud userId fn tp else putLocal svc userId fn tp"
    have "evolves (put_event svc userId w) w1 (snd (?put w1))"
    proof (cases "deployMode svc = Cloud \<and> client svc \<noteq> None")
      case True
      then have w2: "snd (?put w1) = snd (putCloud userId fn tp w1)" by simp
      have "put_event svc userId w =
              (\<lambda>ev. ev = SbGetBucket ''momo-backups'' \<or> ev = SbCreateBucket ''momo-backups''
                \<or> ev = FsReadFile tp \<or> (\<exists>c. ev = SbUpload (userId @ ''/'' @ fn) c) \<or> ev = FsRemove tp)"
        using True by (intro ext) (simp add: put_event_def fn tp)
      then show ?thesis unfolding w2 by (simp only: putCloud_evolves)
    next
      case False
      then have w2: "snd (?put w1) = snd (putLocal svc userId fn tp w1)" by auto
      have "put_event svc userId w =
              (\<lambda>ev. ev = FsEnsureDir (path_join (localBackupDir svc) [userId])
                \<or> ev = FsMove tp (path_join (path_join (localBackupDir svc) [userId]) [fn]))"
        using False by (intro ext) (auto simp: put_event_def fn tp)
      then show ?thesis unfolding w2 by (simp only: putLocal_evolves)
    qed
    then have "evolves ?B w1 (snd (?put w1))" by (rule evolves_mono) (simp add: backup_event_def)
    with e1 have e2: "evolves ?B w (snd (?put w1))" by (rule evolves_trans)
    have "snd (storeArchive svc userId w) = snd (?put w1)"
      using s1' by (cases "?put w1") (simp add: storeArchive_def bindE_def returnE_def split: outcome.splits)
    with e2 show ?thesis by (simp only:)
  qed
qed

lemma storeArchive_size:
  assumes "fst (storeArchive svc userId w) = Resolved n"
  shows "\<exists>nd. lookup_fs w (cwd w @ [''database.db'']) = Some nd \<and> n = int (length (archiver w (Some nd)))"
proof -
  obtain r1 w1 where s1: "stageArchive w = (r1, w1)" by (cases "stageArchive w")
  from assms s1 obtain fn tp where "r1 = Resolved (fn, tp, n)"
    by (auto simp: storeArchive_def bindE_def returnE_def split: outcome.splits prod.splits)
  with s1 have "stageArchive w = (Resolved (fn, tp, n), w1)" by simp
  from stageArchive_spec[OF this] show ?thesis by blast
qed

text \<open>\<open>createBackup\<close> in terms of what comes before the usage update.\<close>

lemma createBackup_try_eq:
  "createBackup_try svc userId w =
     (case storeArchive svc userId w of
        (Resolved n, w2) \<Rightarrow>
          (case fault w KUpdateUsage of
             Some e \<Rightarrow> (Rejected e, emit (DbUpdateUsage userId n) w2)
           | None \<Rightarrow>
               (Resolved \<lparr>success = True, bsize = n,
                          message = ''Backup successful ('' @ mode_name (deployMode svc) @ '')''\<rparr>,
                emit (DbUpdateUsage userId n) w2\<lparr>users := set_storageUsed userId n (users w)\<rparr>))
      | (Rejected e, w2) \<Rightarrow> (Rejected e, w2)
      | (Unsettled e, w2) \<Rightarrow> (Unsettled e, w2))"
proof (cases "storeArchive svc userId w")
  case (Pair r w2)
  from storeArchive_evolves[of svc userId w] Pair have "evolves (backup_event svc userId w) w w2"
    by simp
  note stat = evolves_static[OF this]
  from Pair stat show ?thesis
    by (cases r)
       (simp_all add: createBackup_try_def bindE_def returnE_def updateStorageUsage_def Let_def
          split: option.splits)
qed

lemma createBackup_eq:
  "createBackup svc userId w =
     (case storeArchive svc userId w of
        (Resolved n, w2) \<Rightarrow>
          (case fault w KUpdateUsage of
             Some e \<Rightarrow> (Resolved \<lparr>success = False, bsize = 0, message = err_message e\<rparr>,
                        emit (DbUpdateUsage userId n) w2)
           | None \<Rightarrow>
               (Resolved \<lparr>success = True, bsize = n,
                          message = ''Backup successful ('' @ mode_name (deployMode svc) @ '')''\<rparr>,
                emit (DbUpdateUsage userId n) w2\<lparr>users := set_storageUsed userId n (users w)\<rparr>))
      | (Rejected e, w2) \<Rightarrow> (Resolved \<lparr>success = False, bsize = 0, message = err_message e\<rparr>, w2)
      | (Unsettled e, w2) \<Rightarrow> (Unsettled e, w2))"
  by (simp add: createBackup_def catchE_def returnE_def createBackup_try_eq
      split: prod.splits outcome.splits option.splits)

lemma evolves_trace: "evolves P w w' \<Longrightarrow> trace w' = trace w @ new_events w w'"
  by (auto simp: evolves_def new_events_def)

lemma new_events_emit:
  assumes "evolves P w w2"
  shows "new_events w (emit ev w2) = new_events w w2 @ [ev]"
    and "new_events w (emit ev w2\<lparr>users := us\<rparr>) = new_events w w2 @ [ev]"
  using assms by (auto simp: evolves_def new_events_def)

lemma backup_event_not_usage: "backup_event svc userId w ev \<Longrightarrow> \<not> is_usage_update ev"
  by (auto simp: backup_event_def stage_event_def put_event_def split: if_splits)

lemma evolves_no_usage:
  assumes "evolves (backup_event svc userId w) w w2"
  shows "usage_updates (new_events w w2) = []"
  using evolves_new_events[OF assms]
  by (auto simp: usage_updates_def list_all_iff filter_empty_conv dest: backup_event_not_usage)

lemmas prim_defs = fs_pathExists_def fs_ensureDir_def fs_stat_def fs_readFile_def fs_remove_def
  fs_move_def fs_readdir_def fs_writeFile_def open_error_def zipDatabase_def sb_getBucket_def sb_createBucket_def
  sb_upload_def sb_list_def sb_download_def createClient_def updateStorageUsage_def getCwd_def getNowISO_def

lemmas createBackup_defs = createBackup_def createBackup_try_def storeArchive_def stageArchive_def
  putCloud_def putLocal_def ensureBucket_def

lemmas world_defs = world0_def world_nodb_def world_noclient_def world_upload_fails_def world_usage_fails_def world_cloud1_def
  world_disk_full_def world_zip_fails_def stream_fault_def zip_fault_def
  world_upload_usage_fail_def upload_usage_fault_def world_db_dir_def
  world_local3_def world_cloud3_def world_local3_down_def world_cloud3_down_def item1_def item2_def item3_def list_fault_def
  no_fault_def upload_fault_def usage_fault_def client_fault_def svcLocal_def svcCloud_def userA_def userB_def

lemmas url_defs = download_key_def upload_key_def removeEmptyFolders_def object_key_def url_path_def
  url_path_chars_def url_step_def double_dot_def single_dot_def bucket_url_def c0_or_space_def
  tab_or_newline_def hex_val_def Let_def

lemmas path_defs = path_join_def join_sep_def named_def norm_step_def lookup_fs_def fs_put_def fs_del_def timestamp_of_def fileName_of_def
  ancestors_def mkdir_if_absent_def born_def

lemma step_service: "the_service (step s r) = the_service s"
  by (cases r) simp_all

lemma run_service: "the_service (run s reqs) = the_service s"
  unfolding run_def by (induction reqs arbitrary: s) (simp_all add: step_service)

subsection \<open>Paths that end in a separator\<close>

text \<open>\<open>path.join('/srv/app/backups', 'A', 'x.zip/')\<close> is \<open>/srv/app/backups/A/x.zip/\<close>:
  the separator stays, and such a path does not name the file \<open>x.zip\<close>. A local
  restore asked for a backup id that ends in a separator therefore does not find the
  file, while the same id without it does.\<close>

lemma restore_id_with_trailing_separator:
  "path_join [''srv'', ''app'', ''backups''] [''A'', ''backup_2024-01-01T00-00-00_GMT.zip/'']
     = [''srv'', ''app'', ''backups'', ''A'', ''backup_2024-01-01T00-00-00_GMT.zip'']
   \<and> join_sep [''A'', ''backup_2024-01-01T00-00-00_GMT.zip/'']
   \<and> fst (restoreBackup svcLocal ''A'' ''backup_2024-01-01T00-00-00_GMT.zip/'' world_local3) = Resolved False
   \<and> fst (restoreBackup svcLocal ''A'' ''backup_2024-01-01T00-00-00_GMT.zip'' world_local3) = Resolved True"
  by (simp add: restoreBackup_def restoreBackup_try_def fs_pathExists_def monad_defs Let_def
      world_defs path_defs)

subsection \<open>Usage column of the users table\<close>

text \<open>
  C10. \<open>updateStorageUsage(userId, bytes)\<close>, when the statement executes, replaces
  \<open>storageUsed\<close> by \<open>bytes\<close> in every row of that user, whatever \<open>storageLimit\<close>
  is (there is no comparison with it, so the new value may exceed it); the other columns
  of that row, the rows of the other users and the number of rows stay as they were, and
  so do the file system and the bucket.
\<close>

theorem updateStorageUsage_overwrites:
  assumes "fault w KUpdateUsage = None"
  shows "\<exists>w'. updateStorageUsage userId n w = (Resolved (), w')
           \<and> length (users w') = length (users w)
           \<and> (\<forall>i < length (users w).
                 (user_id (users w ! i) = userId \<longrightarrow> users w' ! i = (users w ! i)\<lparr>storageUsed := n\<rparr>)
               \<and> (user_id (users w ! i) \<noteq> userId \<longrightarrow> users w' ! i = users w ! i))
           \<and> fsys w' = fsys w \<and> buckets w' = buckets w \<and> objects w' = objects w"
  using assms by (simp add: updateStorageUsage_def emit_def set_storageUsed_def)

theorem updateStorageUsage_overwrites_witness:
  "fault world0 KUpdateUsage = None
   \<and> (\<exists>w'. updateStorageUsage ''A'' 500 world0 = (Resolved (), w')
          \<and> users w' = [userA\<lparr>storageUsed := 500\<rparr>, userB]
          \<and> storageLimit (users w' ! 0) < storageUsed (users w' ! 0))"
  using updateStorageUsage_overwrites [of world0 "''A''" 500]
  by (simp add: world0_def userA_def userB_def no_fault_def updateStorageUsage_def emit_def
      set_storageUsed_def)

subsection \<open>Mode resolution\<close>

text \<open>
  C2. When the constructor completes, the mode is \<open>cloud\<close> exactly when
  \<open>SUPABASE_URL\<close> and \<open>SUPABASE_KEY\<close> are both set to non-empty strings, the URL starts
  with \<open>http\<close>, and \<open>createClient\<close> does not throw; in every other case it is
  \<open>local\<close>. The mode is one of the two, and whatever requests the service then handles,
  in whatever world, it stays the one the constructor chose.
\<close>

theorem mode_resolution:
  assumes "fst (BackupService_new SUPABASE_URL SUPABASE_KEY w) = Resolved svc"
  shows "(deployMode svc = Cloud) =
           (truthy SUPABASE_URL \<and> truthy SUPABASE_KEY
            \<and> startsWith (case SUPABASE_URL of Some url \<Rightarrow> url | None \<Rightarrow> []) ''http''
            \<and> fault w KCreateClient = None)
         \<and> (deployMode svc \<noteq> Cloud) = (deployMode svc = Local)
         \<and> deployMode (the_service (run \<lparr>the_service = svc, the_world = w2\<rparr> reqs)) = deployMode svc"
proof -
  have a: "(deployMode svc = Cloud) =
           (truthy SUPABASE_URL \<and> truthy SUPABASE_KEY
            \<and> startsWith (case SUPABASE_URL of Some url \<Rightarrow> url | None \<Rightarrow> []) ''http''
            \<and> fault w KCreateClient = None)"
    using assms
    by (auto simp: BackupService_new_def fs_ensureDir_def createClient_def getCwd_def monad_defs
        emit_def Let_def split: option.splits if_splits)
  have b: "(deployMode svc \<noteq> Cloud) = (deployMode svc = Local)"
    by (cases "deployMode svc") simp_all
  show ?thesis using a b by (simp add: run_service)
qed

theorem mode_resolution_witness:
  "fst (BackupService_new (Some ''https://x.supabase.co'') (Some ''k'') world0) = Resolved svcCloud
   \<and> deployMode svcCloud = Cloud
   \<and> truthy (Some ''https://x.supabase.co'') \<and> truthy (Some ''k'')
   \<and> startsWith ''https://x.supabase.co'' ''http'' \<and> fault world0 KCreateClient = None
   \<and> deployMode (the_service (run \<lparr>the_service = svcCloud, the_world = world0\<rparr>
         [CreateBackup ''A'', ListBackups ''A'', RestoreBackup ''A'' ''x''])) = Cloud
   \<and> fst (BackupService_new (Some ''https://x.supabase.co'') (Some ''k'') world_noclient) = Resolved svcLocal
   \<and> fst (BackupService_new (Some ''ftp://x.supabase.co'') (Some ''k'') world0) = Resolved svcLocal
   \<and> fst (BackupService_new (Some ''https://x.supabase.co'') None world0) = Resolved svcLocal
   \<and> fst (BackupService_new (Some ''https://x.supabase.co'') (Some []) world0) = Resolved svcLocal
   \<and> fst (BackupService_new None None world0) = Resolved svcLocal
   \<and> deployMode svcLocal = Local"
proof -
  have h: "fst (BackupService_new (Some ''https://x.supabase.co'') (Some ''k'') world0) = Resolved svcCloud"
    by (simp add: BackupService_new_def fs_ensureDir_def createClient_def getCwd_def monad_defs
        emit_def Let_def world_defs path_defs upt_rec)
  have l: "fst (BackupService_new (Some ''https://x.supabase.co'') (Some ''k'') world_noclient) = Resolved svcLocal"
    "fst (BackupService_new (Some ''ftp://x.supabase.co'') (Some ''k'') world0) = Resolved svcLocal"
    "fst (BackupService_new (Some ''https://x.supabase.co'') None world0) = Resolved svcLocal"
    "fst (BackupService_new (Some ''https://x.supabase.co'') (Some []) world0) = Resolved svcLocal"
    "fst (BackupService_new None None world0) = Resolved svcLocal"
    by (simp_all add: BackupService_new_def fs_ensureDir_def createClient_def getCwd_def monad_defs
        emit_def Let_def world_defs path_defs upt_rec)
  show ?thesis
    using h l mode_resolution [OF h, of world0 "[CreateBackup ''A'', ListBackups ''A'', RestoreBackup ''A'' ''x'']"]
      mode_resolution [OF l(1), of world0 "[]"]
    by (simp add: svcCloud_def svcLocal_def world0_def no_fault_def)
qed

text \<open>The constructor completes whenever \<open>fs.ensureDirSync\<close> does.\<close>

lemma BackupService_new_completes:
  assumes "fst (fs_ensureDir (path_join (cwd w) [''backups'']) w) = Resolved ()"
  shows "\<exists>svc. fst (BackupService_new SUPABASE_URL SUPABASE_KEY w) = Resolved svc
           \<and> localBackupDir svc = path_join (cwd w) [''backups'']"
  using assms
  by (cases "fs_ensureDir (path_join (cwd w) [''backups'']) w")
     (auto simp: BackupService_new_def createClient_def getCwd_def monad_defs Let_def
        split: option.splits)

subsection \<open>Errors that createBackup and restoreBackup do not catch\<close>

lemma settles_bindE:
  assumes "settles m w" and "\<And>x. fst (m w) = Resolved x \<Longrightarrow> settles (f x) (snd (m w))"
  shows "settles (bindE m f) w"
proof (cases "m w")
  case (Pair r w1)
  with assms show ?thesis
    by (cases r) (auto simp: settles_def bindE_def)
qed

lemma settles_catchE:
  assumes "settles m w" and "\<And>e. fst (m w) = Rejected e \<Longrightarrow> settles (h e) (snd (m w))"
  shows "settles (catchE m h) w"
proof (cases "m w")
  case (Pair r w1)
  with assms show ?thesis
    by (cases r) (auto simp: settles_def catchE_def)
qed

lemma settles_prims [simp]:
  "settles (returnE x) w" "settles (throwE e) w" "settles getCwd w" "settles getNowISO w"
  "settles (fs_pathExists p sep) w" "settles (fs_ensureDir p) w" "settles (fs_stat p) w"
  "settles (fs_readFile p) w" "settles (fs_remove p sep) w" "settles (fs_move p q) w"
  "settles (fs_readdir p) w" "settles (fs_writeFile p d) w"
  "settles (sb_getBucket b) w" "settles (sb_createBucket b) w" "settles (sb_upload k c) w"
  "settles (sb_list k opts) w" "settles (sb_download k) w" "settles (updateStorageUsage u n) w"
  by (simp_all add: settles_def returnE_def throwE_def getCwd_def getNowISO_def fs_pathExists_def
      fs_ensureDir_def fs_stat_def fs_readFile_def fs_remove_def fs_move_def fs_readdir_def
      fs_writeFile_def sb_getBucket_def sb_createBucket_def sb_upload_def sb_list_def
      sb_download_def updateStorageUsage_def Let_def split: option.splits node.splits)

lemma ensureBucket_settles: "settles ensureBucket w"
  unfolding ensureBucket_def
  by (intro settles_bindE) (auto intro!: settles_bindE split: option.splits)

lemma putCloud_settles: "settles (putCloud userId fn tp) w"
  unfolding putCloud_def Let_def
  by (intro settles_bindE ensureBucket_settles) (auto split: option.splits)

lemma putLocal_settles: "settles (putLocal svc userId fn tp) w"
  unfolding putLocal_def Let_def
  by (intro settles_bindE) simp_all

text \<open>\<open>restoreBackup\<close> awaits nothing that can fail to settle: it always resolves.\<close>

lemma restoreBackup_resolves: "\<exists>b w'. restoreBackup svc userId backupId w = (Resolved b, w')"
proof -
  have "settles (restoreBackup svc userId backupId) w"
    unfolding restoreBackup_def restoreBackup_try_def Let_def
    by (intro settles_catchE settles_bindE)
       (auto intro!: settles_bindE split: option.splits)
  moreover have "fst (restoreBackup svc userId backupId w) \<noteq> Rejected e" for e
    by (cases "restoreBackup_try svc userId backupId w")
       (auto simp: restoreBackup_def catchE_def returnE_def split: outcome.splits)
  ultimately show ?thesis
    by (cases "restoreBackup svc userId backupId w"; cases "fst (restoreBackup svc userId backupId w)")
       (auto simp: settles_def)
qed

text \<open>\<open>createBackup\<close> never rejects, and the one way it fails to settle is an error of
  the write stream in \<open>zipDatabase\<close>.\<close>

lemma createBackup_not_rejected: "fst (createBackup svc userId w) \<noteq> Rejected e"
  by (simp add: createBackup_eq split: prod.splits outcome.splits option.splits)

lemma createBackup_unsettled:
  assumes "fst (createBackup svc userId w) = Unsettled e"
  shows "lookup_fs w (path_join (cwd w) [''database.db'']) \<noteq> None
       \<and> (open_error w (tempPath_of w) = Some e
           \<or> open_error w (tempPath_of w) = None \<and> fault w KWriteStream = Some e)"
proof -
  from assms have st: "fst (storeArchive svc userId w) = Unsettled e"
    by (auto simp: createBackup_eq split: prod.splits outcome.splits option.splits)
  obtain r1 w1 where s1: "stageArchive w = (r1, w1)" by (cases "stageArchive w")
  have "r1 = Unsettled e"
  proof (cases r1)
    case (Resolved x)
    obtain fn tp sz where x: "x = (fn, tp, sz)" by (cases x)
    let ?put = "if deployMode svc = Cloud \<and> client svc \<noteq> None
        then putCloud userId fn tp else putLocal svc userId fn tp"
    have "settles ?put w1" by (simp add: putCloud_settles putLocal_settles)
    with st s1 Resolved x show ?thesis
      by (cases "?put w1"; cases "fst (?put w1)")
         (auto simp: storeArchive_def bindE_def returnE_def settles_def)
  next
    case (Rejected e')
    with st s1 show ?thesis by (simp add: storeArchive_def bindE_def)
  next
    case (Unsettled e')
    with st s1 show ?thesis by (simp add: storeArchive_def bindE_def)
  qed
  with s1 show ?thesis
    by (auto simp: stageArchive_def getCwd_def getNowISO_def fs_pathExists_def fs_stat_def
        zipDatabase_def tempPath_of_def monad_defs Let_def
        split: if_splits option.splits)
qed

text \<open>
  C3 at a failing input: the disk fills up while the archive is written. The write
  stream emits \<open>error\<close>; \<open>zipDatabase\<close> listens to the errors of the archive and not
  to those of the stream, so the promise it returned is never settled and the error is
  an uncaught exception of the process. \<open>createBackup\<close>, which awaits that promise
  inside its \<open>try\<close>, returns nothing: neither the failure result nor anything else,
  in local mode as in cloud mode, and the only library calls made are the existence
  check and the archiving. With the same input and an error of the archiver instead,
  the listener rejects the promise and \<open>createBackup\<close> resolves to the failure result.
\<close>

theorem stream_error_escapes_createBackup:
  "fst (createBackup svcLocal ''A'' world_disk_full) =
      Unsettled (Error ''ENOSPC: no space left on device'' None)
   \<and> fst (createBackup svcCloud ''A'' world_disk_full) =
      Unsettled (Error ''ENOSPC: no space left on device'' None)
   \<and> new_events world_disk_full (snd (createBackup svcLocal ''A'' world_disk_full)) =
      [FsPathExists [''srv'', ''app'', ''database.db''],
       FsZip [''srv'', ''app'', ''database.db''] [''srv'', ''app'', ''backup_2024-01-02T03-04-05_GMT.zip'']]
   \<and> fst (createBackup svcLocal ''A'' world_zip_fails) =
      Resolved \<lparr>success = False, bsize = 0, message = ''archiver failed''\<rparr>"
  by (simp add: createBackup_defs prim_defs monad_defs emit_def Let_def
      world_defs path_defs new_events_def)

subsection \<open>Missing source database\<close>

text \<open>
  C5. When \<open>database.db\<close> does not exist in the working directory, \<open>createBackup\<close>
  resolves to \<open>{ success: false, size: 0, message: "Database file (database.db) not
  found" }\<close>, and the only thing it did is the existence check: the file system, the
  bucket and the users table are those of before, so nothing was uploaded, nothing was
  moved and the usage was not updated.
\<close>

theorem createBackup_missing_source:
  assumes "lookup_fs w (path_join (cwd w) [''database.db'']) = None"
  shows "createBackup svc userId w =
           (Resolved \<lparr>success = False, bsize = 0, message = ''Database file (database.db) not found''\<rparr>,
            w\<lparr>trace := trace w @ [FsPathExists (path_join (cwd w) [''database.db''])]\<rparr>)"
  using assms
  by (simp add: createBackup_def createBackup_try_def storeArchive_def stageArchive_def catchE_def
      bindE_def getCwd_def getNowISO_def fs_pathExists_def throwE_def returnE_def emit_def Let_def)

theorem createBackup_missing_source_witness:
  "lookup_fs world_nodb (path_join (cwd world_nodb) [''database.db'']) = None
   \<and> createBackup svcCloud ''A'' world_nodb =
       (Resolved \<lparr>success = False, bsize = 0, message = ''Database file (database.db) not found''\<rparr>,
        world_nodb\<lparr>trace := [FsPathExists [''srv'', ''app'', ''database.db'']]\<rparr>)"
  using createBackup_missing_source [of world_nodb svcCloud "''A''"]
  by (simp add: world_nodb_def world0_def lookup_fs_def path_join_def norm_step_def)

subsection \<open>Usage accounting\<close>

lemma usage_updates_emit:
  assumes "evolves (backup_event svc userId w) w w2"
  shows "usage_updates (new_events w (emit (DbUpdateUsage u n) w2)) = [DbUpdateUsage u n]"
    and "usage_updates (new_events w (emit (DbUpdateUsage u n) w2\<lparr>users := us\<rparr>)) = [DbUpdateUsage u n]"
  using evolves_no_usage[OF assms]
  by (simp_all add: new_events_emit[OF assms] usage_updates_def)

text \<open>
  C6, as the source has it. A \<open>createBackup\<close> that succeeds has called
  \<open>updateStorageUsage\<close> exactly once, with the size of the archive of what is at
  \<open>database.db\<close>, which is the size it returns, and the users table is the old one with
  \<open>storageUsed\<close> of that user replaced by this size (not added to it). A
  \<open>createBackup\<close> that fails leaves the users table as it was. When what failed is
  one of the steps before the usage update (lines 38-106: staging, upload or move),
  \<open>updateStorageUsage\<close> was not called, whatever else is wrong; otherwise all of them
  succeeded, what failed is the usage update itself, and it was called exactly once, as
  the last step.
\<close>

theorem usage_accounting:
  assumes "createBackup svc userId w = (Resolved r, w')"
  shows "(success r \<longrightarrow>
            usage_updates (new_events w w') = [DbUpdateUsage userId (bsize r)]
          \<and> users w' = set_storageUsed userId (bsize r) (users w)
          \<and> fst (storeArchive svc userId w) = Resolved (bsize r)
          \<and> (\<exists>nd. lookup_fs w (path_join (cwd w) [''database.db'']) = Some nd
                  \<and> bsize r = int (length (archiver w (Some nd)))))
       \<and> (\<not> success r \<longrightarrow>
            users w' = users w
          \<and> ((\<exists>e. fst (storeArchive svc userId w) = Rejected e \<and> message r = err_message e)
                \<and> usage_updates (new_events w w') = []
              \<or> (\<exists>n e. fst (storeArchive svc userId w) = Resolved n
                      \<and> fault w KUpdateUsage = Some e \<and> message r = err_message e
                      \<and> usage_updates (new_events w w') = [DbUpdateUsage userId n])))"
proof (cases "storeArchive svc userId w")
  case (Pair r0 w2)
  from storeArchive_evolves[of svc userId w] Pair have ev: "evolves (backup_event svc userId w) w w2"
    by simp
  note stat = evolves_static[OF ev]
  show ?thesis
  proof (cases r0)
    case (Rejected e)
    with assms Pair have "r = \<lparr>success = False, bsize = 0, message = err_message e\<rparr>" "w' = w2"
      by (simp_all add: createBackup_eq)
    with Pair Rejected stat show ?thesis
      by (simp add: evolves_no_usage[OF ev])
  next
    case (Unsettled e)
    with assms Pair show ?thesis by (simp add: createBackup_eq)
  next
    case (Resolved n)
    from Pair Resolved have "fst (storeArchive svc userId w) = Resolved n" by simp
    from storeArchive_size[OF this] obtain nd where
      nd: "lookup_fs w (path_join (cwd w) [''database.db'']) = Some nd" "n = int (length (archiver w (Some nd)))"
      by auto
    show ?thesis
    proof (cases "fault w KUpdateUsage")
      case None
      with assms Pair Resolved have
        "r = \<lparr>success = True, bsize = n, message = ''Backup successful ('' @ mode_name (deployMode svc) @ '')''\<rparr>"
        "w' = emit (DbUpdateUsage userId n) w2\<lparr>users := set_storageUsed userId n (users w)\<rparr>"
        by (simp_all add: createBackup_eq)
      with Pair Resolved nd show ?thesis
        by (simp add: usage_updates_emit[OF ev])
    next
      case (Some e)
      with assms Pair Resolved have
        "r = \<lparr>success = False, bsize = 0, message = err_message e\<rparr>"
        "w' = emit (DbUpdateUsage userId n) w2"
        by (simp_all add: createBackup_eq)
      with Pair Resolved Some stat show ?thesis
        by (simp add: usage_updates_emit[OF ev])
    qed
  qed
qed

lemma createBackup_world0:
  "createBackup svcLocal ''A'' world0 =
     (Resolved \<lparr>success = True, bsize = 17, message = ''Backup successful (local)''\<rparr>,
      snd (createBackup svcLocal ''A'' world0))"
  by (simp add: createBackup_defs prim_defs monad_defs emit_def Let_def
      world_defs path_defs upt_rec)

lemma createBackup_upload_fails:
  "createBackup svcCloud ''A'' world_upload_fails =
     (Resolved \<lparr>success = False, bsize = 0, message = ''upload refused''\<rparr>,
      snd (createBackup svcCloud ''A'' world_upload_fails))"
  by (simp add: createBackup_defs prim_defs monad_defs emit_def Let_def
      world_defs path_defs upt_rec)

theorem usage_accounting_witness:
  "createBackup svcLocal ''A'' world0 =
     (Resolved \<lparr>success = True, bsize = 17, message = ''Backup successful (local)''\<rparr>,
      snd (createBackup svcLocal ''A'' world0))
   \<and> usage_updates (new_events world0 (snd (createBackup svcLocal ''A'' world0))) = [DbUpdateUsage ''A'' 17]
   \<and> users (snd (createBackup svcLocal ''A'' world0)) = [userA\<lparr>storageUsed := 17\<rparr>, userB]
   \<and> fst (storeArchive svcLocal ''A'' world0) = Resolved 17
   \<and> createBackup svcCloud ''A'' world_upload_fails =
     (Resolved \<lparr>success = False, bsize = 0, message = ''upload refused''\<rparr>,
      snd (createBackup svcCloud ''A'' world_upload_fails))
   \<and> fst (storeArchive svcCloud ''A'' world_upload_fails) = Rejected (Error ''upload refused'' (Some 500))
   \<and> usage_updates (new_events world_upload_fails (snd (createBackup svcCloud ''A'' world_upload_fails))) = []
   \<and> users (snd (createBackup svcCloud ''A'' world_upload_fails)) = [userA, userB]"
proof -
  have st: "fst (storeArchive svcCloud ''A'' world_upload_fails) = Rejected (Error ''upload refused'' (Some 500))"
    by (simp add: createBackup_defs prim_defs monad_defs emit_def Let_def world_defs path_defs)
  from usage_accounting [OF createBackup_world0] usage_accounting [OF createBackup_upload_fails]
    createBackup_world0 createBackup_upload_fails st
  show ?thesis
    by (simp add: set_storageUsed_def world_upload_fails_def world0_def userA_def userB_def)
qed

text \<open>When the upload fails, the usage update is not reached, whether or not it would have
  failed too; and a directory at \<open>database.db\<close> is archived like a file: the backup
  succeeds and the usage becomes the size of that archive.\<close>

lemma failed_upload_skips_usage_update:
  "fst (createBackup svcCloud ''A'' world_upload_usage_fail) =
      Resolved \<lparr>success = False, bsize = 0, message = ''upload refused''\<rparr>
   \<and> usage_updates (new_events world_upload_usage_fail
         (snd (createBackup svcCloud ''A'' world_upload_usage_fail))) = []"
  by (simp add: createBackup_defs prim_defs monad_defs emit_def Let_def
      world_defs path_defs new_events_def usage_updates_def)

lemma directory_source_is_archived:
  "fst (createBackup svcLocal ''A'' world_db_dir) =
      Resolved \<lparr>success = True, bsize = 2, message = ''Backup successful (local)''\<rparr>
   \<and> usage_updates (new_events world_db_dir (snd (createBackup svcLocal ''A'' world_db_dir)))
      = [DbUpdateUsage ''A'' 2]"
  by (simp add: createBackup_defs prim_defs monad_defs emit_def Let_def
      world_defs path_defs new_events_def usage_updates_def upt_rec)

text \<open>
  C6 as stated ("a failed createBackup invokes it zero times") fails when the usage
  update itself is rejected: the call is the last statement of the \<open>try\<close> block, so the
  backup fails after having invoked it once.
\<close>

theorem failed_backup_invoked_usage_update:
  "fst (createBackup svcLocal ''A'' world_usage_fails) =
      Resolved \<lparr>success = False, bsize = 0, message = ''Connection terminated''\<rparr>
   \<and> usage_updates (new_events world_usage_fails (snd (createBackup svcLocal ''A'' world_usage_fails)))
      = [DbUpdateUsage ''A'' 17]"
  by (simp add: createBackup_defs prim_defs monad_defs emit_def Let_def
      world_defs path_defs new_events_def usage_updates_def upt_rec)

subsection \<open>The staging file after a failed upload\<close>

lemma upload_key_world0:
  "upload_key ''A/backup_2024-01-02T03-04-05_GMT.zip'' = Some ''A/backup_2024-01-02T03-04-05_GMT.zip''"
  by (simp add: url_defs)

text \<open>On the success path of the cloud branch the staging archive is removed.\<close>

lemma staging_file_removed_after_upload:
  "fst (createBackup svcCloud ''A'' world0) =
      Resolved \<lparr>success = True, bsize = 17, message = ''Backup successful (cloud)''\<rparr>
   \<and> lookup_fs (snd (createBackup svcCloud ''A'' world0))
        [''srv'', ''app'', ''backup_2024-01-02T03-04-05_GMT.zip''] = None"
  by (simp add: createBackup_defs prim_defs monad_defs emit_def Let_def
      world_defs path_defs upload_key_world0)

text \<open>
  C4 at a failing input: in cloud mode, with the upload refused by the provider,
  \<open>createBackup\<close> resolves to the failure result and the staging archive is still in
  the working directory. \<open>fs.remove(tempPath)\<close> is reached on the success path only:
  with the same input and no failure the staging archive is gone after the call.
\<close>

theorem staging_file_left_after_failed_upload:
  "fst (createBackup svcCloud ''A'' world_upload_fails) =
      Resolved \<lparr>success = False, bsize = 0, message = ''upload refused''\<rparr>
   \<and> lookup_fs (snd (createBackup svcCloud ''A'' world_upload_fails))
        [''srv'', ''app'', ''backup_2024-01-02T03-04-05_GMT.zip'']
      = Some (File ''PKSQLite format 3'' 1704164645678)"
  by (simp add: createBackup_defs prim_defs monad_defs emit_def Let_def
      world_defs path_defs)

subsection \<open>The temporary file of a cloud restore\<close>

text \<open>
  C9. In cloud mode every \<open>fs.writeFile\<close> of \<open>restoreBackup\<close> goes to
  \<open>restore_temp.zip\<close> in the working directory, whatever the user and the backup id;
  and when the download succeeds, the bytes of the object the request addresses are
  written there.
\<close>

theorem restore_temp_fixed:
  assumes "deployMode svc = Cloud" and "client svc \<noteq> None"
  shows "(\<forall>p d. FsWriteFile p d \<in> set (new_events w (snd (restoreBackup svc userId backupId w)))
            \<longrightarrow> p = cwd w @ [''restore_temp.zip''])
       \<and> (\<forall>k ob. fault w KDownload = None \<and> ''momo-backups'' \<in> set (buckets w)
               \<and> download_key (userId @ ''/'' @ backupId) = Some k \<and> map_of (objects w) k = Some ob
            \<longrightarrow> FsWriteFile (cwd w @ [''restore_temp.zip'']) (obj_bytes ob)
                  \<in> set (new_events w (snd (restoreBackup svc userId backupId w))))"
  using assms
  by (auto simp: restoreBackup_def restoreBackup_try_def fs_writeFile_def fs_remove_def sb_download_def
      getCwd_def monad_defs emit_def Let_def new_events_def path_join_plain1 plain_seg_def
      split: option.splits outcome.splits prod.splits)

theorem restore_temp_fixed_witness:
  "deployMode svcCloud = Cloud \<and> client svcCloud \<noteq> None
   \<and> fault world_cloud1 KDownload = None \<and> ''momo-backups'' \<in> set (buckets world_cloud1)
   \<and> download_key (''A'' @ ''/'' @ ''backup_2024-01-01T00-00-00_GMT.zip'')
       = Some ''A/backup_2024-01-01T00-00-00_GMT.zip''
   \<and> map_of (objects world_cloud1) ''A/backup_2024-01-01T00-00-00_GMT.zip''
       = Some \<lparr>obj_bytes = ''PKold'', obj_size = Some 5, obj_created = 1704067200000\<rparr>
   \<and> FsWriteFile (cwd world_cloud1 @ [''restore_temp.zip'']) ''PKold''
       \<in> set (new_events world_cloud1
                (snd (restoreBackup svcCloud ''A'' ''backup_2024-01-01T00-00-00_GMT.zip'' world_cloud1)))"
proof -
  have k: "download_key (''A'' @ ''/'' @ ''backup_2024-01-01T00-00-00_GMT.zip'')
       = Some ''A/backup_2024-01-01T00-00-00_GMT.zip''"
    by (simp add: url_defs)
  from restore_temp_fixed [of svcCloud world_cloud1 "''A''" "''backup_2024-01-01T00-00-00_GMT.zip''"] k
  show ?thesis by (simp add: world_defs)
qed

subsection \<open>Sorting\<close>

lemma mset_insort_by: "mset (insort_by cmp x ys) = add_mset x (mset ys)"
  by (induction ys) auto

lemma mset_js_sort: "mset (js_sort cmp xs) = mset xs"
  unfolding js_sort_def by (induction xs) (auto simp: mset_insort_by)

lemma set_js_sort: "set (js_sort cmp xs) = set xs"
  using mset_js_sort[of cmp xs] by (metis set_mset_mset)

lemma set_insort_by: "set (insort_by cmp x ys) = insert x (set ys)"
  using mset_insort_by[of cmp x ys] by (metis set_mset_mset set_mset_add_mset_insert)

lemma sorted_insort_newest:
  "sorted_wrt (\<lambda>a b. created_at b \<le> created_at a) ys
   \<Longrightarrow> sorted_wrt (\<lambda>a b. created_at b \<le> created_at a) (insort_by newest_first x ys)"
  by (induction ys) (auto simp: newest_first_def set_insort_by)

lemma sorted_js_sort: "sorted_wrt (\<lambda>a b. created_at b \<le> created_at a) (js_sort newest_first xs)"
  unfolding js_sort_def by (induction xs) (auto simp: sorted_insort_newest)

text \<open>A list in descending order of a key whose elements are three with increasing keys.\<close>

lemma descending_three:
  fixes k :: "'a \<Rightarrow> int"
  assumes "mset xs = {#a, b, c#}" and "sorted_wrt (\<lambda>x y. k y \<le> k x) xs"
    and "k a < k b" and "k b < k c"
  shows "xs = [c, b, a]"
proof -
  from assms(1) have "length xs = 3" by (metis size_mset size_add_mset size_empty numeral_3_eq_3)
  then obtain x y z where xs: "xs = [x, y, z]"
    by (cases xs; cases "tl xs"; cases "tl (tl xs)") auto
  from assms(1) have "set xs = {a, b, c}" by (metis set_mset_mset set_mset_add_mset_insert set_mset_empty)
  with xs have mem: "x \<in> {a, b, c}" "y \<in> {a, b, c}" "z \<in> {a, b, c}" by auto
  from assms(1) xs have cnt: "a \<in> {x, y, z}" "b \<in> {x, y, z}" "c \<in> {x, y, z}"
    using \<open>set xs = {a, b, c}\<close> by auto
  from assms(2) xs have ord: "k y \<le> k x" "k z \<le> k y" "k z \<le> k x" by auto
  from mem cnt ord assms(3,4) show ?thesis unfolding xs by auto
qed

subsection \<open>Listing a directory\<close>

lemma stat_record_emit [simp]: "stat_record (emit ev w) d n = stat_record w d n"
  by (simp add: stat_record_def)

lemma file_record_cases:
  obtains (err) e where "file_record d n w = (Rejected e, emit (FsStat (path_join d [n])) w)"
      "fault w KStat \<noteq> None \<or> lookup_fs w (path_join d [n]) = None"
  | (ok) nd where "file_record d n w = (Resolved (stat_record w d n), emit (FsStat (path_join d [n])) w)"
      "fault w KStat = None" "lookup_fs w (path_join d [n]) = Some nd"
  by (cases "fault w KStat"; cases "lookup_fs w (path_join d [n])")
     (auto simp: file_record_def fs_stat_def bindE_def returnE_def Let_def stat_record_def)

lemma file_record_snd: "snd (file_record d n w) = emit (FsStat (path_join d [n])) w"
  by (cases rule: file_record_cases[of d n w]) simp_all

lemma file_record_settles: "fst (file_record d n w) \<noteq> Unsettled e"
  by (cases rule: file_record_cases[of d n w]) simp_all

lemma mapE_snd_Cons: "snd (mapE f (x # xs) w) = snd (mapE f xs (snd (f x w)))"
  by (simp split: prod.splits)

lemma mapE_fst_Cons: "fst (mapE f (x # xs) w) = gather (fst (f x w)) (fst (mapE f xs (snd (f x w))))"
  by (simp split: prod.splits)

lemma gather_Resolved:
  "(gather r rs = Resolved zs) = (\<exists>y ys. r = Resolved y \<and> rs = Resolved ys \<and> zs = y # ys)"
  by (cases r; cases rs) auto

lemma gather_Unsettled:
  "gather r rs = Unsettled e \<Longrightarrow> r = Unsettled e \<or> rs = Unsettled e"
  by (cases r; cases rs) auto

text \<open>Every entry is looked at, whatever the outcomes: one \<open>stat\<close> per name.\<close>

lemma mapE_file_record_snd:
  "snd (mapE (file_record d) ns w) = foldl (\<lambda>w n. emit (FsStat (path_join d [n])) w) w ns"
  by (induction ns arbitrary: w) (simp_all add: mapE_snd_Cons file_record_snd del: mapE.simps(2))

lemma mapE_file_record_frame:
  "fsys (snd (mapE (file_record d) ns w)) = fsys w \<and> fault (snd (mapE (file_record d) ns w)) = fault w"
  unfolding mapE_file_record_snd by (induction ns arbitrary: w) simp_all

lemma mapE_file_record_evolves:
  "evolves (\<lambda>ev. \<exists>n \<in> set ns. ev = FsStat (path_join d [n])) w (snd (mapE (file_record d) ns w))"
proof (induction ns arbitrary: w)
  case Nil
  show ?case by simp
next
  case (Cons n ns)
  let ?w1 = "emit (FsStat (path_join d [n])) w"
  let ?P = "\<lambda>ev. \<exists>m \<in> set (n # ns). ev = FsStat (path_join d [m])"
  have 1: "evolves ?P w ?w1" by simp
  have 2: "evolves ?P ?w1 (snd (mapE (file_record d) ns ?w1))"
    by (rule evolves_mono[OF Cons]) simp
  have 3: "evolves ?P w (snd (mapE (file_record d) ns ?w1))"
    using 1 2 by (rule evolves_trans)
  have "snd (mapE (file_record d) (n # ns) w) = snd (mapE (file_record d) ns ?w1)"
    by (simp add: mapE_snd_Cons file_record_snd del: mapE.simps(2))
  with 3 show ?case by (simp only:)
qed

lemma mapE_file_record_settles: "fst (mapE (file_record d) ns w) \<noteq> Unsettled e"
proof (induction ns arbitrary: w)
  case Nil
  show ?case by simp
next
  case (Cons n ns)
  show ?case
  proof
    assume "fst (mapE (file_record d) (n # ns) w) = Unsettled e"
    then have "gather (fst (file_record d n w)) (fst (mapE (file_record d) ns (snd (file_record d n w))))
                 = Unsettled e"
      by (simp only: mapE_fst_Cons)
    from gather_Unsettled[OF this] Cons file_record_settles show False by blast
  qed
qed

lemma mapE_file_record_ok:
  assumes "fault w KStat = None" and "\<forall>n \<in> set ns. lookup_fs w (path_join d [n]) \<noteq> None"
  shows "fst (mapE (file_record d) ns w) = Resolved (map (stat_record w d) ns)"
  using assms
proof (induction ns arbitrary: w)
  case Nil
  show ?case by simp
next
  case (Cons n ns)
  let ?w1 = "emit (FsStat (path_join d [n])) w"
  have ih: "fst (mapE (file_record d) ns ?w1) = Resolved (map (stat_record ?w1 d) ns)"
    by (rule Cons.IH) (use Cons.prems in simp_all)
  show ?case
  proof (cases rule: file_record_cases[of d n w])
    case (err e)
    with Cons.prems show ?thesis by auto
  next
    case (ok nd)
    with ih show ?thesis
      by (simp add: mapE_fst_Cons del: mapE.simps(2))
  qed
qed

lemma mapE_file_record_inv:
  assumes "fst (mapE (file_record d) ns w) = Resolved rs"
  shows "rs = map (stat_record w d) ns \<and> (\<forall>n \<in> set ns. lookup_fs w (path_join d [n]) \<noteq> None)"
  using assms
proof (induction ns arbitrary: w rs)
  case Nil
  then show ?case by simp
next
  case (Cons n ns)
  let ?w1 = "emit (FsStat (path_join d [n])) w"
  from Cons.prems obtain y ys where y: "fst (file_record d n w) = Resolved y"
    and ys: "fst (mapE (file_record d) ns (snd (file_record d n w))) = Resolved ys"
    and rs: "rs = y # ys"
    by (auto simp: mapE_fst_Cons gather_Resolved simp del: mapE.simps(2))
  from ys have rest: "fst (mapE (file_record d) ns ?w1) = Resolved ys"
    by (simp add: file_record_snd)
  show ?case
  proof (cases rule: file_record_cases[of d n w])
    case (err e)
    with y show ?thesis by simp
  next
    case (ok nd)
    with y have "y = stat_record w d n" by simp
    with Cons.IH[OF rest] ok rs show ?thesis by simp
  qed
qed

lemma children_emit [simp]: "children (emit ev w) d = children w d"
  by (simp add: children_def)

lemma listBackups_try_eq:
  "listBackups_try svc userId w =
     (let d = path_join (localBackupDir svc) [userId];
          w1 = emit (FsPathExists d) w;
          w2 = emit (FsReaddir d) w1 in
      case named w d (join_sep [userId]) of
        None \<Rightarrow> (Resolved [], w1)
      | Some nd \<Rightarrow>
          (case fault w KReaddir of
             Some e \<Rightarrow> (Rejected e, w2)
           | None \<Rightarrow>
               (case nd of
                  File b t \<Rightarrow> (Rejected (Error ''ENOTDIR: not a directory'' None), w2)
                | Dir n t \<Rightarrow>
                    (case mapE (file_record d) (children w d) w2 of
                       (Resolved rs, w3) \<Rightarrow> (Resolved (js_sort newest_first rs), w3)
                     | (Rejected e, w3) \<Rightarrow> (Rejected e, w3)
                     | (Unsettled e, w3) \<Rightarrow> (Unsettled e, w3)))))"
proof (cases "named w (path_join (localBackupDir svc) [userId]) (join_sep [userId])")
  case None
  then show ?thesis
    by (simp add: listBackups_try_def fs_pathExists_def bindE_def returnE_def Let_def)
next
  case (Some nd)
  from named_Some[OF Some] Some show ?thesis
    by (simp add: listBackups_try_def fs_pathExists_def fs_readdir_def bindE_def returnE_def Let_def
        split: option.splits node.splits prod.splits outcome.splits)
qed

lemma listBackups_try_settles: "fst (listBackups_try svc userId w) \<noteq> Unsettled e"
  using mapE_file_record_settles[of "path_join (localBackupDir svc) [userId]"
      "children w (path_join (localBackupDir svc) [userId])"
      "emit (FsReaddir (path_join (localBackupDir svc) [userId]))
         (emit (FsPathExists (path_join (localBackupDir svc) [userId])) w)" e]
  by (auto simp: listBackups_try_eq Let_def split: option.splits node.splits prod.splits outcome.splits)

lemma listBackups_local:
  assumes "\<not> (deployMode svc = Cloud \<and> client svc \<noteq> None)"
  shows "listBackups svc userId w =
           (case listBackups_try svc userId w of
              (Resolved rs, w') \<Rightarrow> (Resolved rs, w')
            | (Rejected e, w') \<Rightarrow> (Resolved [], w')
            | (Unsettled e, w') \<Rightarrow> (Unsettled e, w'))"
  using assms by (auto simp: listBackups_def catchE_def returnE_def split: prod.splits outcome.splits)

lemma listBackups_cloud:
  assumes "deployMode svc = Cloud \<and> client svc \<noteq> None"
  shows "listBackups svc userId w =
           (if fault w KList = None \<and> ''momo-backups'' \<in> set (buckets w)
            then Resolved (map item_record
                   (take 100 (sort_key (\<lambda>i. - item_created i) (folder_items userId (objects w)))))
            else Resolved [],
            emit (SbList userId) w)"
  using assms
  by (auto simp: listBackups_def sb_list_def list_options_def sort_items_def bindE_def returnE_def
      Let_def split: option.splits)

subsection \<open>Listing never fails\<close>

text \<open>
  C8. \<open>listBackups\<close> always resolves, in both modes and whatever fails underneath.
  In cloud mode an \<open>error\<close> from the provider gives the empty list, and so does a
  folder without objects. In local mode every exception of the \<open>try\<close> block gives
  the empty list, and so do a missing directory of the user and a directory without
  entries.
\<close>

theorem listBackups_total:
  "\<exists>rs w'. listBackups svc userId w = (Resolved rs, w')
     \<and> (deployMode svc = Cloud \<and> client svc \<noteq> None \<longrightarrow>
          (\<forall>e its. fst (sb_list userId list_options w) = Resolved (Some e, its) \<longrightarrow> rs = [])
        \<and> (folder_items userId (objects w) = [] \<longrightarrow> rs = []))
     \<and> (\<not> (deployMode svc = Cloud \<and> client svc \<noteq> None) \<longrightarrow>
          (\<forall>e. fst (listBackups_try svc userId w) = Rejected e \<longrightarrow> rs = [])
        \<and> (lookup_fs w (path_join (localBackupDir svc) [userId]) = None \<longrightarrow> rs = [])
        \<and> (children w (path_join (localBackupDir svc) [userId]) = [] \<longrightarrow> rs = []))"
proof (cases "deployMode svc = Cloud \<and> client svc \<noteq> None")
  case True
  show ?thesis
    unfolding listBackups_cloud[OF True] using True
    by (auto simp: sb_list_def Let_def split: option.splits if_splits)
next
  case False
  obtain r0 w0 where t: "listBackups_try svc userId w = (r0, w0)"
    by (cases "listBackups_try svc userId w")
  from listBackups_try_settles[of svc userId w] t have ns: "r0 \<noteq> Unsettled e" for e by simp
  have emp: "r0 = Resolved []"
    if "lookup_fs w (path_join (localBackupDir svc) [userId]) = None
        \<or> children w (path_join (localBackupDir svc) [userId]) = []"
      and "r0 = Resolved rs" for rs
    using that t
    by (auto simp: listBackups_try_eq Let_def js_sort_def named_None
        split: option.splits node.splits prod.splits outcome.splits)
  show ?thesis
    unfolding listBackups_local[OF False] t using False ns emp
    by (cases r0) auto
qed

subsection \<open>Listing order\<close>

lemma listBackups_sorted:
  assumes "fst (listBackups svc userId w) = Resolved rs"
  shows "sorted_wrt (\<lambda>a b. created_at b \<le> created_at a) rs"
proof (cases "deployMode svc = Cloud \<and> client svc \<noteq> None")
  case True
  let ?its = "sort_key (\<lambda>i. - item_created i) (folder_items userId (objects w))"
  have "sorted (map (\<lambda>i. - item_created i) ?its)" by (rule sorted_sort_key)
  then have "sorted_wrt (\<lambda>a b. item_created b \<le> item_created a) ?its"
    by (simp add: sorted_map)
  then have "sorted_wrt (\<lambda>a b. item_created b \<le> item_created a) (take 100 ?its)"
    by (rule sorted_wrt_take)
  then have "sorted_wrt (\<lambda>a b. created_at b \<le> created_at a) (map item_record (take 100 ?its))"
    by (simp add: sorted_wrt_map item_record_def)
  with assms show ?thesis
    by (auto simp: listBackups_cloud[OF True] split: if_splits)
next
  case False
  with assms show ?thesis
    by (auto simp: listBackups_local[OF False] listBackups_try_eq Let_def sorted_js_sort
        split: option.splits node.splits prod.splits outcome.splits)
qed

lemma listBackups_local_three:
  assumes loc: "\<not> (deployMode svc = Cloud \<and> client svc \<noteq> None)"
    and nf: "fault w KReaddir = None" "fault w KStat = None"
    and dir: "is_dir (lookup_fs w (path_join (localBackupDir svc) [userId]))"
    and ch: "mset (children w (path_join (localBackupDir svc) [userId])) = {#f1, f2, f3#}"
    and pl: "plain_seg f1" "plain_seg f2" "plain_seg f3"
    and f1: "lookup_fs w (path_join (localBackupDir svc) [userId] @ [f1]) = Some (File b1 t1)"
    and f2: "lookup_fs w (path_join (localBackupDir svc) [userId] @ [f2]) = Some (File b2 t2)"
    and f3: "lookup_fs w (path_join (localBackupDir svc) [userId] @ [f3]) = Some (File b3 t3)"
    and lt: "t1 < t2" "t2 < t3"
  shows "fst (listBackups svc userId w) =
           Resolved [\<lparr>rec_id = f3, rec_name = f3, rec_size = int (length b3), created_at = t3\<rparr>,
                \<lparr>rec_id = f2, rec_name = f2, rec_size = int (length b2), created_at = t2\<rparr>,
                \<lparr>rec_id = f1, rec_name = f1, rec_size = int (length b1), created_at = t1\<rparr>]"
proof -
  let ?d = "path_join (localBackupDir svc) [userId]"
  let ?w2 = "emit (FsReaddir ?d) (emit (FsPathExists ?d) w)"
  let ?r1 = "\<lparr>rec_id = f1, rec_name = f1, rec_size = int (length b1), created_at = t1\<rparr>"
  let ?r2 = "\<lparr>rec_id = f2, rec_name = f2, rec_size = int (length b2), created_at = t2\<rparr>"
  let ?r3 = "\<lparr>rec_id = f3, rec_name = f3, rec_size = int (length b3), created_at = t3\<rparr>"
  have s1: "stat_record w ?d f1 = ?r1" and s2: "stat_record w ?d f2 = ?r2"
    and s3: "stat_record w ?d f3 = ?r3"
    using pl f1 f2 f3 by (simp_all add: stat_record_def path_join_plain1)
  have mem: "set (children w ?d) = {f1, f2, f3}"
    using ch by (metis set_mset_mset set_mset_add_mset_insert set_mset_empty)
  have all: "\<forall>n \<in> set (children w ?d). lookup_fs ?w2 (path_join ?d [n]) \<noteq> None"
    using mem pl f1 f2 f3 by (auto simp: path_join_plain1)
  have "fst (mapE (file_record ?d) (children w ?d) ?w2) = Resolved (map (stat_record ?w2 ?d) (children w ?d))"
    by (rule mapE_file_record_ok) (use nf all in simp_all)
  then have m: "fst (mapE (file_record ?d) (children w ?d) ?w2) = Resolved (map (stat_record w ?d) (children w ?d))"
    by simp
  obtain nn tt where nd: "lookup_fs w ?d = Some (Dir nn tt)"
    using dir by (cases "lookup_fs w ?d" rule: is_dir.cases) auto
  from named_dir[OF dir] nd have nm: "named w ?d (join_sep [userId]) = Some (Dir nn tt)"
    by simp
  have res: "fst (listBackups svc userId w) = Resolved (js_sort newest_first (map (stat_record w ?d) (children w ?d)))"
    using m nm nf
    by (cases "mapE (file_record ?d) (children w ?d) ?w2")
       (simp add: listBackups_local[OF loc] listBackups_try_eq Let_def)
  have "mset (map (stat_record w ?d) (children w ?d)) = image_mset (stat_record w ?d) {#f1, f2, f3#}"
    by (simp only: mset_map ch)
  then have "mset (map (stat_record w ?d) (children w ?d)) = {#?r1, ?r2, ?r3#}"
    by (simp only: image_mset_add_mset image_mset_empty s1 s2 s3)
  then have "mset (js_sort newest_first (map (stat_record w ?d) (children w ?d))) = {#?r1, ?r2, ?r3#}"
    by (simp add: mset_js_sort)
  then have "js_sort newest_first (map (stat_record w ?d) (children w ?d)) = [?r3, ?r2, ?r1]"
    by (rule descending_three[where k = created_at]) (use lt in \<open>simp_all add: sorted_js_sort\<close>)
  with res show ?thesis by simp
qed

lemma listBackups_cloud_three:
  assumes cl: "deployMode svc = Cloud \<and> client svc \<noteq> None"
    and nf: "fault w KList = None" and bk: "''momo-backups'' \<in> set (buckets w)"
    and its: "mset (folder_items userId (objects w)) =
                {#\<lparr>item_name = n1, item_size = s1, item_created = c1\<rparr>,
                  \<lparr>item_name = n2, item_size = s2, item_created = c2\<rparr>,
                  \<lparr>item_name = n3, item_size = s3, item_created = c3\<rparr>#}"
    and lt: "c1 < c2" "c2 < c3"
  shows "fst (listBackups svc userId w) =
           Resolved [\<lparr>rec_id = n3, rec_name = n3, rec_size = (case s3 of None \<Rightarrow> 0 | Some n \<Rightarrow> n), created_at = c3\<rparr>,
                     \<lparr>rec_id = n2, rec_name = n2, rec_size = (case s2 of None \<Rightarrow> 0 | Some n \<Rightarrow> n), created_at = c2\<rparr>,
                     \<lparr>rec_id = n1, rec_name = n1, rec_size = (case s1 of None \<Rightarrow> 0 | Some n \<Rightarrow> n), created_at = c1\<rparr>]"
proof -
  let ?i1 = "\<lparr>item_name = n1, item_size = s1, item_created = c1\<rparr>"
  let ?i2 = "\<lparr>item_name = n2, item_size = s2, item_created = c2\<rparr>"
  let ?i3 = "\<lparr>item_name = n3, item_size = s3, item_created = c3\<rparr>"
  let ?its = "sort_key (\<lambda>i. - item_created i) (folder_items userId (objects w))"
  have "sorted (map (\<lambda>i. - item_created i) ?its)" by (rule sorted_sort_key)
  then have "sorted_wrt (\<lambda>a b. item_created b \<le> item_created a) ?its"
    by (simp add: sorted_map)
  moreover have "mset ?its = {#?i1, ?i2, ?i3#}" using its by simp
  ultimately have "?its = [?i3, ?i2, ?i1]"
    using lt by (intro descending_three[where k = item_created]) simp_all
  then show ?thesis using nf bk by (simp add: listBackups_cloud[OF cl] item_record_def)
qed

text \<open>The order of a cloud listing is the one the request asks for: with \<open>order: 'asc'\<close>
  in place of \<open>'desc'\<close> the same folder is listed oldest first.\<close>

lemma sb_list_order_follows_request:
  "fst (sb_list ''A'' list_options world_cloud3) = Resolved (None, Some [item3, item2, item1])
   \<and> fst (sb_list ''A'' (list_options\<lparr>opt_order := ''asc''\<rparr>) world_cloud3)
       = Resolved (None, Some [item1, item2, item3])
   \<and> fst (sb_list ''A'' (list_options\<lparr>opt_limit := 2\<rparr>) world_cloud3)
       = Resolved (None, Some [item3, item2])"
  by (simp add: sb_list_def list_options_def sort_items_def folder_items_def folder_item_def
      List.map_filter_def Let_def world_defs)

text \<open>
  C7. Whatever \<open>listBackups\<close> returns is in descending order of \<open>created_at\<close>. In
  local mode, when the directory of the user holds exactly three files, in any order,
  born at \<open>t1 < t2 < t3\<close>, and reading it does not fail, the result is their three
  records (name, size in bytes, birth time) in the order \<open>t3, t2, t1\<close>: the code sorts
  them. In cloud mode, when the folder of the user holds exactly three objects, created
  at \<open>c1 < c2 < c3\<close>, and the listing does not fail, the result is their three records
  (name, reported size or \<open>0\<close>, creation time) in the order \<open>c3, c2, c1\<close>: the code
  does not sort, it asks the provider for \<open>created_at\<close> descending, and the provider
  orders the listing as it is asked.
\<close>

theorem listBackups_newest_first:
  "(\<forall>rs. fst (listBackups svc userId w) = Resolved rs \<longrightarrow>
       sorted_wrt (\<lambda>a b. created_at b \<le> created_at a) rs)
   \<and> (\<not> (deployMode svc = Cloud \<and> client svc \<noteq> None)
       \<and> fault w KReaddir = None \<and> fault w KStat = None
       \<and> is_dir (lookup_fs w (path_join (localBackupDir svc) [userId]))
       \<and> mset (children w (path_join (localBackupDir svc) [userId])) = {#f1, f2, f3#}
       \<and> plain_seg f1 \<and> plain_seg f2 \<and> plain_seg f3
       \<and> lookup_fs w (path_join (localBackupDir svc) [userId] @ [f1]) = Some (File b1 t1)
       \<and> lookup_fs w (path_join (localBackupDir svc) [userId] @ [f2]) = Some (File b2 t2)
       \<and> lookup_fs w (path_join (localBackupDir svc) [userId] @ [f3]) = Some (File b3 t3)
       \<and> t1 < t2 \<and> t2 < t3
      \<longrightarrow> fst (listBackups svc userId w) =
            Resolved [\<lparr>rec_id = f3, rec_name = f3, rec_size = int (length b3), created_at = t3\<rparr>,
                 \<lparr>rec_id = f2, rec_name = f2, rec_size = int (length b2), created_at = t2\<rparr>,
                 \<lparr>rec_id = f1, rec_name = f1, rec_size = int (length b1), created_at = t1\<rparr>])
   \<and> (deployMode svc = Cloud \<and> client svc \<noteq> None
       \<and> fault w KList = None \<and> ''momo-backups'' \<in> set (buckets w)
       \<and> mset (folder_items userId (objects w)) =
            {#\<lparr>item_name = n1, item_size = s1, item_created = c1\<rparr>,
              \<lparr>item_name = n2, item_size = s2, item_created = c2\<rparr>,
              \<lparr>item_name = n3, item_size = s3, item_created = c3\<rparr>#}
       \<and> c1 < c2 \<and> c2 < c3
      \<longrightarrow> fst (listBackups svc userId w) =
            Resolved [\<lparr>rec_id = n3, rec_name = n3, rec_size = (case s3 of None \<Rightarrow> 0 | Some n \<Rightarrow> n), created_at = c3\<rparr>,
                      \<lparr>rec_id = n2, rec_name = n2, rec_size = (case s2 of None \<Rightarrow> 0 | Some n \<Rightarrow> n), created_at = c2\<rparr>,
                      \<lparr>rec_id = n1, rec_name = n1, rec_size = (case s1 of None \<Rightarrow> 0 | Some n \<Rightarrow> n), created_at = c1\<rparr>])"
  using listBackups_sorted[of svc userId w]
    listBackups_local_three[of svc w userId f1 f2 f3 b1 t1 b2 t2 b3 t3]
    listBackups_cloud_three[of svc w userId n1 s1 c1 n2 s2 c2 n3 s3 c3]
  by blast

lemma children_local3:
  "children world_local3 [''srv'', ''app'', ''backups'', ''A''] =
     [''backup_2024-01-02T00-00-00_GMT.zip'', ''backup_2024-01-03T00-00-00_GMT.zip'',
      ''backup_2024-01-01T00-00-00_GMT.zip'']"
  by (simp add: children_def world_defs)

lemma folder_items_cloud3: "folder_items ''A'' (objects world_cloud3) = [item2, item3, item1]"
  by (simp add: folder_items_def folder_item_def List.map_filter_def world_defs)

theorem listBackups_total_witness:
  "lookup_fs world_local3 (path_join (localBackupDir svcLocal) [''C'']) = None
   \<and> fst (listBackups svcLocal ''C'' world_local3) = Resolved []
   \<and> fst (listBackups_try svcLocal ''A'' world_local3_down) = Rejected (Error ''unavailable'' (Some 503))
   \<and> fst (listBackups svcLocal ''A'' world_local3_down) = Resolved []
   \<and> fst (sb_list ''A'' list_options world_cloud3_down) = Resolved (Some (Error ''unavailable'' (Some 503)), None)
   \<and> fst (listBackups svcCloud ''A'' world_cloud3_down) = Resolved []
   \<and> folder_items ''C'' (objects world_cloud3) = []
   \<and> fst (listBackups svcCloud ''C'' world_cloud3) = Resolved []"
proof -
  have 1: "lookup_fs world_local3 (path_join (localBackupDir svcLocal) [''C'']) = None"
    by (simp add: world_defs path_defs)
  have 2: "fst (listBackups_try svcLocal ''A'' world_local3_down) = Rejected (Error ''unavailable'' (Some 503))"
    by (simp add: listBackups_try_eq Let_def world_defs path_defs)
  have 3: "fst (sb_list ''A'' list_options world_cloud3_down) = Resolved (Some (Error ''unavailable'' (Some 503)), None)"
    by (simp add: sb_list_def Let_def world_defs)
  have 4: "folder_items ''C'' (objects world_cloud3) = []"
    by (simp add: folder_items_def folder_item_def List.map_filter_def world_defs)
  have l: "\<not> (deployMode svcLocal = Cloud \<and> client svcLocal \<noteq> None)"
    and c: "deployMode svcCloud = Cloud \<and> client svcCloud \<noteq> None"
    by (simp_all add: world_defs)
  from listBackups_total[of svcLocal "''C''" world_local3] 1 l
  have a: "fst (listBackups svcLocal ''C'' world_local3) = Resolved []" by auto
  from listBackups_total[of svcLocal "''A''" world_local3_down] 2 l
  have b: "fst (listBackups svcLocal ''A'' world_local3_down) = Resolved []" by auto
  from listBackups_total[of svcCloud "''A''" world_cloud3_down] 3 c
  have d: "fst (listBackups svcCloud ''A'' world_cloud3_down) = Resolved []" by auto
  from listBackups_total[of svcCloud "''C''" world_cloud3] 4 c
  have e: "fst (listBackups svcCloud ''C'' world_cloud3) = Resolved []" by auto
  from 1 2 3 4 a b d e show ?thesis by simp
qed

theorem listBackups_newest_first_witness:
  "fst (listBackups svcLocal ''A'' world_local3) =
     Resolved [\<lparr>rec_id = ''backup_2024-01-03T00-00-00_GMT.zip'', rec_name = ''backup_2024-01-03T00-00-00_GMT.zip'',
            rec_size = 7, created_at = 1704240000000\<rparr>,
          \<lparr>rec_id = ''backup_2024-01-02T00-00-00_GMT.zip'', rec_name = ''backup_2024-01-02T00-00-00_GMT.zip'',
            rec_size = 5, created_at = 1704153600000\<rparr>,
          \<lparr>rec_id = ''backup_2024-01-01T00-00-00_GMT.zip'', rec_name = ''backup_2024-01-01T00-00-00_GMT.zip'',
            rec_size = 5, created_at = 1704067200000\<rparr>]
   \<and> fst (listBackups svcCloud ''A'' world_cloud3) =
     Resolved [\<lparr>rec_id = ''backup_2024-01-03T00-00-00_GMT.zip'', rec_name = ''backup_2024-01-03T00-00-00_GMT.zip'',
            rec_size = 0, created_at = 1704240000000\<rparr>,
          \<lparr>rec_id = ''backup_2024-01-02T00-00-00_GMT.zip'', rec_name = ''backup_2024-01-02T00-00-00_GMT.zip'',
            rec_size = 5, created_at = 1704153600000\<rparr>,
          \<lparr>rec_id = ''backup_2024-01-01T00-00-00_GMT.zip'', rec_name = ''backup_2024-01-01T00-00-00_GMT.zip'',
            rec_size = 5, created_at = 1704067200000\<rparr>]"
proof -
  let ?d = "[''srv'', ''app'', ''backups'', ''A'']"
  have d: "path_join (localBackupDir svcLocal) [''A''] = ?d"
    by (simp add: world_defs path_defs)
  have hl: "\<not> (deployMode svcLocal = Cloud \<and> client svcLocal \<noteq> None)
       \<and> fault world_local3 KReaddir = None \<and> fault world_local3 KStat = None
       \<and> is_dir (lookup_fs world_local3 (path_join (localBackupDir svcLocal) [''A'']))
       \<and> mset (children world_local3 (path_join (localBackupDir svcLocal) [''A''])) =
           {#''backup_2024-01-01T00-00-00_GMT.zip'', ''backup_2024-01-02T00-00-00_GMT.zip'',
             ''backup_2024-01-03T00-00-00_GMT.zip''#}
       \<and> plain_seg ''backup_2024-01-01T00-00-00_GMT.zip'' \<and> plain_seg ''backup_2024-01-02T00-00-00_GMT.zip''
       \<and> plain_seg ''backup_2024-01-03T00-00-00_GMT.zip''
       \<and> lookup_fs world_local3 (path_join (localBackupDir svcLocal) [''A''] @ [''backup_2024-01-01T00-00-00_GMT.zip''])
           = Some (File ''PKone'' 1704067200000)
       \<and> lookup_fs world_local3 (path_join (localBackupDir svcLocal) [''A''] @ [''backup_2024-01-02T00-00-00_GMT.zip''])
           = Some (File ''PKtwo'' 1704153600000)
       \<and> lookup_fs world_local3 (path_join (localBackupDir svcLocal) [''A''] @ [''backup_2024-01-03T00-00-00_GMT.zip''])
           = Some (File ''PKthree'' 1704240000000)
       \<and> (1704067200000 :: int) < 1704153600000 \<and> (1704153600000 :: int) < 1704240000000"
    unfolding d children_local3
    by (simp add: world_defs lookup_fs_def plain_seg_def)
  have hc: "deployMode svcCloud = Cloud \<and> client svcCloud \<noteq> None
       \<and> fault world_cloud3 KList = None \<and> ''momo-backups'' \<in> set (buckets world_cloud3)
       \<and> mset (folder_items ''A'' (objects world_cloud3)) =
           {#\<lparr>item_name = ''backup_2024-01-01T00-00-00_GMT.zip'', item_size = Some 5,
               item_created = 1704067200000\<rparr>,
             \<lparr>item_name = ''backup_2024-01-02T00-00-00_GMT.zip'', item_size = Some 5,
               item_created = 1704153600000\<rparr>,
             \<lparr>item_name = ''backup_2024-01-03T00-00-00_GMT.zip'', item_size = None,
               item_created = 1704240000000\<rparr>#}
       \<and> (1704067200000 :: int) < 1704153600000 \<and> (1704153600000 :: int) < 1704240000000"
    unfolding folder_items_cloud3
    by (simp add: world_defs)
  from listBackups_newest_first[of svcLocal "''A''" world_local3
      "''backup_2024-01-01T00-00-00_GMT.zip''" "''backup_2024-01-02T00-00-00_GMT.zip''"
      "''backup_2024-01-03T00-00-00_GMT.zip''" "''PKone''" 1704067200000 "''PKtwo''" 1704153600000
      "''PKthree''" 1704240000000] hl
  have a: "fst (listBackups svcLocal ''A'' world_local3) =
     Resolved [\<lparr>rec_id = ''backup_2024-01-03T00-00-00_GMT.zip'', rec_name = ''backup_2024-01-03T00-00-00_GMT.zip'',
            rec_size = int (length ''PKthree''), created_at = 1704240000000\<rparr>,
          \<lparr>rec_id = ''backup_2024-01-02T00-00-00_GMT.zip'', rec_name = ''backup_2024-01-02T00-00-00_GMT.zip'',
            rec_size = int (length ''PKtwo''), created_at = 1704153600000\<rparr>,
          \<lparr>rec_id = ''backup_2024-01-01T00-00-00_GMT.zip'', rec_name = ''backup_2024-01-01T00-00-00_GMT.zip'',
            rec_size = int (length ''PKone''), created_at = 1704067200000\<rparr>]"
    by blast
  from listBackups_newest_first[of svcCloud "''A''" world_cloud3 _ _ _ _ _ _ _ _ _
      "''backup_2024-01-01T00-00-00_GMT.zip''" "Some 5" 1704067200000
      "''backup_2024-01-02T00-00-00_GMT.zip''" "Some 5" 1704153600000
      "''backup_2024-01-03T00-00-00_GMT.zip''" None 1704240000000] hc
  have b: "fst (listBackups svcCloud ''A'' world_cloud3) =
     Resolved [\<lparr>rec_id = ''backup_2024-01-03T00-00-00_GMT.zip'', rec_name = ''backup_2024-01-03T00-00-00_GMT.zip'',
            rec_size = (case None of None \<Rightarrow> 0 | Some n \<Rightarrow> n), created_at = 1704240000000\<rparr>,
          \<lparr>rec_id = ''backup_2024-01-02T00-00-00_GMT.zip'', rec_name = ''backup_2024-01-02T00-00-00_GMT.zip'',
            rec_size = (case Some 5 of None \<Rightarrow> 0 | Some n \<Rightarrow> n), created_at = 1704153600000\<rparr>,
          \<lparr>rec_id = ''backup_2024-01-01T00-00-00_GMT.zip'', rec_name = ''backup_2024-01-01T00-00-00_GMT.zip'',
            rec_size = (case Some 5 of None \<Rightarrow> 0 | Some n \<Rightarrow> n), created_at = 1704067200000\<rparr>]"
    by blast
  from a b show ?thesis by simp
qed

subsection \<open>Safe identifiers in paths and keys\<close>

lemma safe_char_facts:
  assumes "safe_char c"
  shows "c \<noteq> CHR ''/''" "c \<noteq> CHR ''%''" "c \<noteq> CHR ''?''" "c \<noteq> CHR ''#''" "c \<noteq> CHR 0x5C"
    "\<not> tab_or_newline c" "\<not> c0_or_space c"
  using assms by (auto simp: safe_char_def tab_or_newline_def c0_or_space_def)

lemma safe_id_plain: "safe_id s \<Longrightarrow> plain_seg s"
  by (auto simp: safe_id_def plain_seg_def list_all_iff dest: safe_char_facts(1))

lemma safe_timestamp:
  assumes "iso_chars isoStr"
  shows "list_all safe_char (timestamp_of isoStr)"
proof -
  have dash: "safe_char CHR ''-''" by (simp add: safe_char_def)
  have "safe_char c" if "c \<in> set (timestamp_of isoStr)" for c
  proof -
    from that obtain d where d: "d \<in> set isoStr"
      and c: "c = (if d = CHR '':'' \<or> d = CHR ''.'' then CHR ''-'' else d)"
      by (auto simp: timestamp_of_def dest!: in_set_takeD)
    from assms d have "safe_char d \<or> d = CHR '':''" by (simp add: iso_chars_def list_all_iff)
    with c dash show ?thesis by (cases "d = CHR '':'' \<or> d = CHR ''.''") auto
  qed
  then show ?thesis by (simp add: list_all_iff)
qed

lemma safe_fileName: "iso_chars isoStr \<Longrightarrow> safe_id (fileName_of isoStr)"
proof -
  assume "iso_chars isoStr"
  from safe_timestamp[OF this] have "list_all safe_char (timestamp_of isoStr)" .
  moreover have "list_all safe_char ''backup_''" "list_all safe_char ''_GMT.zip''"
    by (simp_all add: safe_char_def)
  ultimately have "list_all safe_char (fileName_of isoStr)"
    by (simp add: fileName_of_def)
  then show ?thesis by (simp add: safe_id_def) (simp add: fileName_of_def)
qed

lemma undot_id: "CHR ''%'' \<notin> set s \<Longrightarrow> undot s = s"
  by (induction s rule: undot.induct) auto

lemma pct_decode_id: "CHR ''%'' \<notin> set s \<Longrightarrow> pct_decode s = Some s"
  by (induction s) auto

lemma squeeze_slashes_none: "CHR ''/'' \<notin> set s \<Longrightarrow> squeeze_slashes s = s"
  by (induction s rule: squeeze_slashes.induct) auto

lemma squeeze_slashes_key:
  assumes "CHR ''/'' \<notin> set u" and "CHR ''/'' \<notin> set b" and "b \<noteq> []"
  shows "squeeze_slashes (u @ CHR ''/'' # b) = u @ CHR ''/'' # b"
  using assms(1)
proof (induction u)
  case Nil
  from assms(3) obtain a as where b: "b = a # as" by (cases b) auto
  with assms(2) have "a \<noteq> CHR ''/''" "CHR ''/'' \<notin> set (a # as)" by auto
  then show ?case unfolding b by (simp add: squeeze_slashes_none)
next
  case (Cons a u)
  then show ?case by (cases "u @ CHR ''/'' # b") auto
qed

lemma split_on_sep: "c \<notin> set u \<Longrightarrow> split_on c (u @ c # b) = u # split_on c b"
  by (induction u) auto

text \<open>A key \<open>u/b\<close> of two safe identifiers addresses the object of that very key.\<close>

lemma url_path_chars_safe:
  assumes "\<forall>c \<in> set k. safe_char c \<or> c = CHR ''/''" and "k \<noteq> []" and "safe_char (last k)"
  shows "url_path_chars k = k"
proof -
  from assms(2,3) have "\<not> c0_or_space (hd (rev k))"
    by (simp add: hd_rev safe_char_facts(7))
  then have "dropWhile c0_or_space (rev k) = rev k"
    by (simp only: dropWhile_eq_self_iff) simp
  then have 1: "rev (dropWhile c0_or_space (rev k)) = k"
    by (simp only: rev_rev_ident)
  have "\<not> tab_or_newline CHR ''/''" by (simp add: tab_or_newline_def)
  with assms(1) have 2: "filter (\<lambda>c. \<not> tab_or_newline c) k = k"
    by (auto simp: filter_id_conv dest: safe_char_facts(6))
  have 3: "takeWhile (\<lambda>c. c \<noteq> CHR ''?'' \<and> c \<noteq> CHR ''#'') k = k"
    using assms(1) by (auto simp: takeWhile_eq_all_conv dest: safe_char_facts(3,4))
  have 4: "map (\<lambda>c. if c = CHR 0x5C then CHR ''/'' else c) k = k"
    using assms(1) by (intro map_idI) (auto dest: safe_char_facts(5))
  show ?thesis by (simp add: url_path_chars_def 1 2 3 4)
qed

lemma object_key_safe:
  assumes "safe_id u" and "safe_id b"
  shows "object_key (u @ CHR ''/'' # b) = Some (u @ CHR ''/'' # b)"
proof -
  let ?k = "u @ CHR ''/'' # b"
  from assms have su: "\<forall>c \<in> set u. safe_char c" and sb: "\<forall>c \<in> set b. safe_char c"
    and ne: "u \<noteq> []" "b \<noteq> []" and nd: "u \<noteq> ''.''" "u \<noteq> ''..''" "b \<noteq> ''.''" "b \<noteq> ''..''"
    by (simp_all add: safe_id_def list_all_iff)
  from su sb have nosl: "CHR ''/'' \<notin> set u" "CHR ''/'' \<notin> set b"
    and nopc: "CHR ''%'' \<notin> set u" "CHR ''%'' \<notin> set b"
    by (auto dest: safe_char_facts(1,2))
  have chars: "url_path_chars ?k = ?k"
    by (rule url_path_chars_safe) (use su sb ne in auto)
  have parts: "split_on CHR ''/'' ?k = [u, b]"
    using nosl by (simp add: split_on_sep split_on_none)
  have dots: "\<not> double_dot u" "\<not> single_dot u" "\<not> double_dot b" "\<not> single_dot b"
    using nd nopc by (simp_all add: double_dot_def single_dot_def undot_id)
  have path: "url_path bucket_url ?k = bucket_url @ [u, b]"
    by (simp add: url_path_def chars parts dots url_step_def Let_def)
  have "pct_decode ?k = Some ?k"
    using nopc by (simp add: pct_decode_id)
  then show ?thesis
    by (simp add: object_key_def path Let_def) (simp add: bucket_url_def)
qed

lemma download_key_safe:
  assumes "safe_id u" and "safe_id b"
  shows "download_key (u @ CHR ''/'' # b) = Some (u @ CHR ''/'' # b)"
proof -
  from assms(1) have "u \<noteq> []" "hd u \<noteq> CHR ''/''"
    by (auto simp: safe_id_def list_all_iff dest: safe_char_facts(1) hd_in_set)
  then have "dropWhile (\<lambda>c. c = CHR ''/'') (u @ CHR ''/'' # b) = u @ CHR ''/'' # b"
    by (cases u) simp_all
  with object_key_safe[OF assms] show ?thesis by (simp add: download_key_def)
qed

lemma upload_key_safe:
  assumes "safe_id u" and "safe_id b"
  shows "upload_key (u @ CHR ''/'' # b) = Some (u @ CHR ''/'' # b)"
proof -
  let ?k = "u @ CHR ''/'' # b"
  from assms have ne: "u \<noteq> []" "b \<noteq> []" and nosl: "CHR ''/'' \<notin> set u" "CHR ''/'' \<notin> set b"
    by (auto simp: safe_id_def list_all_iff dest: safe_char_facts(1))
  from ne have "hd ?k = hd u" "last ?k = last b" by simp_all
  moreover from ne nosl have "hd u \<noteq> CHR ''/''" "last b \<noteq> CHR ''/''"
    by (metis hd_in_set, metis last_in_set)
  ultimately have "hd ?k \<noteq> CHR ''/''" "last ?k \<noteq> CHR ''/''" by simp_all
  then have "removeEmptyFolders ?k = ?k"
    using ne nosl by (simp add: removeEmptyFolders_def squeeze_slashes_key)
  with download_key_safe[OF assms] show ?thesis by (simp add: upload_key_def)
qed

subsection \<open>Tenant isolation\<close>

lemma startsWith_append [simp]: "startsWith (p @ s) p"
  by (induction p) auto

lemma startsWith_owner_key [simp]: "startsWith (u @ c # s) (u @ [c])"
  by (induction u) auto

lemma startsWith_drop: "startsWith k p \<Longrightarrow> k = p @ drop (length p) k"
  by (induction k p rule: startsWith.induct) auto

lemma prefix_owner_unique:
  assumes "startsWith k (u @ ''/'')" and "startsWith k (v @ ''/'')"
    and "CHR ''/'' \<notin> set u" and "CHR ''/'' \<notin> set v"
  shows "u = v"
  using assms
proof (induction u arbitrary: v k)
  case Nil
  then show ?case by (cases k; cases v) auto
next
  case (Cons a u)
  then show ?case by (cases k; cases v) auto
qed

lemma in_owner_prefix_other:
  "in_owner_prefix userId k \<Longrightarrow> plain_seg userId \<Longrightarrow> plain_seg other \<Longrightarrow> other \<noteq> userId
   \<Longrightarrow> \<not> in_owner_prefix other k"
  unfolding in_owner_prefix_def plain_seg_def using prefix_owner_unique by blast

lemma reaches_prefix_other:
  "reaches_prefix userId target \<Longrightarrow> plain_seg userId \<Longrightarrow> plain_seg other \<Longrightarrow> other \<noteq> userId
   \<Longrightarrow> \<not> reaches_prefix other target"
  by (cases target) (auto simp: reaches_prefix_def dest: in_owner_prefix_other)

lemma reaches_prefix_safe:
  assumes "safe_id userId" and "safe_id b"
  shows "reaches_prefix userId (download_key (userId @ ''/'' @ b))"
    and "reaches_prefix userId (upload_key (userId @ ''/'' @ b))"
  by (simp_all add: download_key_safe[OF assms] upload_key_safe[OF assms] reaches_prefix_def
      in_owner_prefix_def)

lemma in_owner_dir_other:
  "in_owner_dir svc userId p \<Longrightarrow> other \<noteq> userId \<Longrightarrow> \<not> in_owner_dir svc other p"
  by (simp add: in_owner_dir_def)

lemma in_owner_dir_append [simp]: "in_owner_dir svc userId (localBackupDir svc @ userId # rest)"
  by (simp add: in_owner_dir_def)

lemma staging_not_in_owner_dir:
  "localBackupDir svc = c @ [''backups''] \<Longrightarrow> \<not> in_owner_dir svc other (c @ [x])"
  by (simp add: in_owner_dir_def)

lemma plain_fileName: "iso_chars isoStr \<Longrightarrow> plain_seg (fileName_of isoStr)"
  by (rule safe_id_plain[OF safe_fileName])

lemma owner_event_not_other:
  assumes "owner_event svc w userId ev" and "plain_seg userId" and "plain_seg other"
    and "other \<noteq> userId" and "iso_chars (nowISO w)"
    and "localBackupDir svc = cwd w @ [''backups'']"
  shows "\<not> touches_owner svc other ev"
proof -
  have tp: "tempPath_of w = cwd w @ [fileName_of (nowISO w)]"
    using assms(5) by (simp add: tempPath_of_def path_join_plain1 plain_fileName)
  note st = staging_not_in_owner_dir[OF assms(6)]
  show ?thesis
    using assms(1-4) st
    by (cases ev) (auto simp: tp dest: in_owner_dir_other reaches_prefix_other)
qed

lemma path_join_restore_temp [simp]: "path_join p [''restore_temp.zip''] = p @ [''restore_temp.zip'']"
  by (simp add: path_join_plain1 plain_seg_def)

lemma backup_event_owner:
  assumes "backup_event svc userId w ev" and "safe_id userId" and "iso_chars (nowISO w)"
  shows "owner_event svc w userId ev"
  using assms reaches_prefix_safe(2)[OF assms(2) safe_fileName[OF assms(3)]]
  by (auto simp: backup_event_def stage_event_def put_event_def
      path_join_plain1 plain_fileName safe_id_plain split: if_splits)

lemma createBackup_snd:
  "snd (createBackup svc userId w) =
     (case storeArchive svc userId w of
        (Resolved n, w2) \<Rightarrow>
          (case fault w KUpdateUsage of
             Some e \<Rightarrow> emit (DbUpdateUsage userId n) w2
           | None \<Rightarrow> emit (DbUpdateUsage userId n) w2\<lparr>users := set_storageUsed userId n (users w)\<rparr>)
      | (Rejected e, w2) \<Rightarrow> w2
      | (Unsettled e, w2) \<Rightarrow> w2)"
  by (simp add: createBackup_eq split: prod.splits outcome.splits option.splits)

lemma createBackup_events:
  assumes "safe_id userId" and "iso_chars (nowISO w)"
  shows "list_all (owner_event svc w userId) (new_events w (snd (createBackup svc userId w)))"
proof -
  obtain r0 w2 where run: "storeArchive svc userId w = (r0, w2)"
    by (cases "storeArchive svc userId w")
  from storeArchive_evolves[of svc userId w] run have ev: "evolves (backup_event svc userId w) w w2"
    by simp
  have own: "list_all (owner_event svc w userId) (new_events w w2)"
    using evolves_new_events[OF ev] backup_event_owner[OF _ assms]
    by (auto simp: list_all_iff)
  from run own show ?thesis
    by (cases r0; cases "fault w KUpdateUsage")
       (simp_all add: createBackup_snd new_events_emit[OF ev])
qed

lemma evolves_emit2 [simp]: "evolves P w (emit ev2 (emit ev1 w)) = (P ev1 \<and> P ev2)"
  by (simp add: evolves_def)

lemma listBackups_try_evolves:
  "evolves (\<lambda>ev. ev = FsPathExists (path_join (localBackupDir svc) [userId])
              \<or> ev = FsReaddir (path_join (localBackupDir svc) [userId])
              \<or> (\<exists>n \<in> set (children w (path_join (localBackupDir svc) [userId])).
                    ev = FsStat (path_join (path_join (localBackupDir svc) [userId]) [n])))
     w (snd (listBackups_try svc userId w))"
proof -
  let ?d = "path_join (localBackupDir svc) [userId]"
  let ?P = "\<lambda>ev. ev = FsPathExists ?d \<or> ev = FsReaddir ?d
              \<or> (\<exists>n \<in> set (children w ?d). ev = FsStat (path_join ?d [n]))"
  let ?w2 = "emit (FsReaddir ?d) (emit (FsPathExists ?d) w)"
  have a: "evolves ?P w (emit (FsPathExists ?d) w)" by simp
  have b: "evolves ?P w ?w2" by simp
  have "evolves ?P ?w2 (snd (mapE (file_record ?d) (children w ?d) ?w2))"
    by (rule evolves_mono[OF mapE_file_record_evolves]) simp
  with b have c: "evolves ?P w (snd (mapE (file_record ?d) (children w ?d) ?w2))"
    by (rule evolves_trans)
  have "snd (listBackups_try svc userId w) = emit (FsPathExists ?d) w
      \<or> snd (listBackups_try svc userId w) = ?w2
      \<or> snd (listBackups_try svc userId w) = snd (mapE (file_record ?d) (children w ?d) ?w2)"
    by (simp add: listBackups_try_eq Let_def split: option.splits node.splits prod.splits outcome.splits)
  then consider
    (absent) "snd (listBackups_try svc userId w) = emit (FsPathExists ?d) w"
  | (unreadable) "snd (listBackups_try svc userId w) = ?w2"
  | (read) "snd (listBackups_try svc userId w) = snd (mapE (file_record ?d) (children w ?d) ?w2)"
    by blast
  then show ?thesis
  proof cases
    case absent
    with a show ?thesis by (simp only:)
  next
    case unreadable
    with b show ?thesis by (simp only:)
  next
    case read
    with c show ?thesis by (simp only:)
  qed
qed

lemma children_plain:
  assumes "plain_names w" and "n \<in> set (children w d)"
  shows "plain_seg n" and "lookup_fs w (d @ [n]) \<noteq> None"
proof -
  from assms(2) obtain e where e: "e \<in> set (fsys w)" "fst e \<noteq> []" "butlast (fst e) = d" "n = last (fst e)"
    by (auto simp: children_def)
  from assms(1) e(1) have "\<forall>s \<in> set (fst e). plain_seg s"
    by (auto simp: plain_names_def list_all_iff)
  with e(2,4) show "plain_seg n" by simp
  from e(2,3,4) have "fst e = d @ [n]" by (metis append_butlast_last_id)
  with e(1) have "d @ [n] \<in> fst ` set (fsys w)" by force
  then show "lookup_fs w (d @ [n]) \<noteq> None"
    by (simp add: lookup_fs_def map_of_eq_None_iff)
qed

lemma listBackups_snd_local:
  "\<not> (deployMode svc = Cloud \<and> client svc \<noteq> None)
   \<Longrightarrow> snd (listBackups svc userId w) = snd (listBackups_try svc userId w)"
  by (auto simp: listBackups_def catchE_def returnE_def split: prod.splits outcome.splits)

lemma listBackups_events:
  assumes "plain_seg userId" and "plain_names w"
  shows "list_all (owner_event svc w userId) (new_events w (snd (listBackups svc userId w)))"
proof (cases "deployMode svc = Cloud \<and> client svc \<noteq> None")
  case True
  show ?thesis by (simp add: listBackups_cloud[OF True] new_events_def)
next
  case False
  let ?d = "path_join (localBackupDir svc) [userId]"
  have d: "?d = localBackupDir svc @ [userId]" using assms(1) by (simp add: path_join_plain1)
  have "evolves (owner_event svc w userId) w (snd (listBackups_try svc userId w))"
  proof (rule evolves_mono[OF listBackups_try_evolves])
    fix ev
    assume "ev = FsPathExists ?d \<or> ev = FsReaddir ?d
              \<or> (\<exists>n \<in> set (children w ?d). ev = FsStat (path_join ?d [n]))"
    then show "owner_event svc w userId ev"
      using children_plain(1)[OF assms(2)]
      by (auto simp: d path_join_plain1)
  qed
  then show ?thesis
    by (simp add: listBackups_snd_local[OF False] evolves_new_events)
qed

lemma restoreBackup_events:
  assumes "safe_id userId" and "safe_id backupId"
  shows "list_all (owner_event svc w userId) (new_events w (snd (restoreBackup svc userId backupId w)))"
proof (cases "deployMode svc = Cloud \<and> client svc \<noteq> None")
  case True
  then show ?thesis
    by (simp add: restoreBackup_def restoreBackup_try_def fs_writeFile_def fs_remove_def
      sb_download_def getCwd_def monad_defs Let_def new_events_def
      download_key_safe[OF assms] reaches_prefix_def in_owner_prefix_def
      split: option.splits)
next
  case False
  then show ?thesis using safe_id_plain[OF assms(1)] safe_id_plain[OF assms(2)]
    by (auto simp: restoreBackup_def restoreBackup_try_def fs_pathExists_def fs_remove_def
      monad_defs Let_def new_events_def path_join_plain2
      split: option.splits)
qed

lemma set_map_filter: "set (List.map_filter f xs) = {y. \<exists>x \<in> set xs. f x = Some y}"
  by (induction xs) (auto simp: List.map_filter_def)

lemma listBackups_records:
  assumes "fst (listBackups svc userId w) = Resolved rs" and "r \<in> set rs"
    and "plain_seg userId" and "plain_names w"
  shows "if deployMode svc = Cloud \<and> client svc \<noteq> None
         then map_of (objects w) (userId @ ''/'' @ rec_id r) \<noteq> None
         else lookup_fs w (localBackupDir svc @ [userId, rec_id r]) \<noteq> None"
proof (cases "deployMode svc = Cloud \<and> client svc \<noteq> None")
  case True
  from assms(1,2) obtain i where i: "i \<in> set (folder_items userId (objects w))" "r = item_record i"
    by (auto simp: listBackups_cloud[OF True] split: if_splits dest!: in_set_takeD)
  then obtain e where e: "e \<in> set (objects w)" "folder_item userId e = Some i"
    by (auto simp: folder_items_def set_map_filter)
  from e(2) have sw: "startsWith (fst e) (userId @ ''/'')"
    and nm: "item_name i = drop (length userId + 1) (fst e)"
    by (auto simp: folder_item_def Let_def split: if_splits)
  from startsWith_drop[OF sw] nm have "fst e = userId @ ''/'' @ item_name i" by simp
  with e(1) have "userId @ ''/'' @ item_name i \<in> fst ` set (objects w)" by force
  then have "map_of (objects w) (userId @ ''/'' @ item_name i) \<noteq> None"
    by (simp add: map_of_eq_None_iff)
  with True i(2) show ?thesis by (simp add: item_record_def)
next
  case False
  let ?d = "path_join (localBackupDir svc) [userId]"
  let ?w2 = "emit (FsReaddir ?d) (emit (FsPathExists ?d) w)"
  have d: "?d = localBackupDir svc @ [userId]" using assms(3) by (simp add: path_join_plain1)
  from assms(1,2) obtain rs0 where rs0: "fst (mapE (file_record ?d) (children w ?d) ?w2) = Resolved rs0"
    and rs: "rs = js_sort newest_first rs0"
    by (auto simp: listBackups_local[OF False] listBackups_try_eq Let_def
        split: option.splits node.splits prod.splits outcome.splits)
  from mapE_file_record_inv[OF rs0] have "rs0 = map (stat_record ?w2 ?d) (children w ?d)" by blast
  with rs assms(2) obtain n where n: "n \<in> set (children w ?d)" "r = stat_record w ?d n"
    by (auto simp: set_js_sort)
  from n(2) have "rec_id r = n" by (simp add: stat_record_def split: option.splits)
  with children_plain(2)[OF assms(4) n(1)] False show ?thesis by (auto simp: d)
qed

lemma list_all_not_other:
  assumes "list_all (owner_event svc w userId) evs" and "plain_seg userId" and "plain_seg other"
    and "other \<noteq> userId" and "iso_chars (nowISO w)"
    and "localBackupDir svc = cwd w @ [''backups'']"
  shows "list_all (\<lambda>ev. owner_event svc w userId ev \<and> \<not> touches_owner svc other ev) evs"
  using assms(1) owner_event_not_other[OF _ assms(2-6)]
  by (auto simp: list_all_iff)

text \<open>
  C1, as the source has it. Let the user id, the backup id and the id of another user
  be safe identifiers (not empty, not \<open>.\<close> or \<open>..\<close>, made of letters, digits, \<open>-\<close>,
  \<open>_\<close> and \<open>.\<close>), let every name on disk be a plain segment, let the clock give an
  ISO timestamp, and let the service keep its backups in \<open>backups\<close> under the working
  directory, as the constructor sets it. Then every library call made by
  \<open>createBackup\<close>, \<open>listBackups\<close> and \<open>restoreBackup\<close> for that user touches only
  the process's own staging files, the directory \<open>backups/userId\<close> or objects under
  \<open>userId/\<close>, and none touches the directory, the objects or the row of the other
  user; and every record \<open>listBackups\<close> returns stands for a file of that directory
  (an object under that prefix), which is not in the namespace of the other user. The
  source joins the ids into the path and the key as they come: nothing is sanitised or
  rejected, so the statement is one about these identifiers only.
\<close>

theorem tenant_isolation_safe_ids:
  assumes "safe_id userId" and "safe_id backupId" and "safe_id other" and "other \<noteq> userId"
    and "plain_names w" and "iso_chars (nowISO w)"
    and "localBackupDir svc = cwd w @ [''backups'']"
  shows "list_all (\<lambda>ev. owner_event svc w userId ev \<and> \<not> touches_owner svc other ev)
           (new_events w (snd (createBackup svc userId w)))
       \<and> list_all (\<lambda>ev. owner_event svc w userId ev \<and> \<not> touches_owner svc other ev)
           (new_events w (snd (listBackups svc userId w)))
       \<and> list_all (\<lambda>ev. owner_event svc w userId ev \<and> \<not> touches_owner svc other ev)
           (new_events w (snd (restoreBackup svc userId backupId w)))
       \<and> (\<forall>rs r. fst (listBackups svc userId w) = Resolved rs \<and> r \<in> set rs \<longrightarrow>
             (if deployMode svc = Cloud \<and> client svc \<noteq> None
              then map_of (objects w) (userId @ ''/'' @ rec_id r) \<noteq> None
                   \<and> \<not> in_owner_prefix other (userId @ ''/'' @ rec_id r)
              else lookup_fs w (localBackupDir svc @ [userId, rec_id r]) \<noteq> None
                   \<and> \<not> in_owner_dir svc other (localBackupDir svc @ [userId, rec_id r])))"
proof -
  note pu = safe_id_plain[OF assms(1)]
  note po = safe_id_plain[OF assms(3)]
  note other = pu po assms(4) assms(6) assms(7)
  have c: "list_all (\<lambda>ev. owner_event svc w userId ev \<and> \<not> touches_owner svc other ev)
           (new_events w (snd (createBackup svc userId w)))"
    by (rule list_all_not_other[OF createBackup_events[OF assms(1) assms(6)] other])
  have l: "list_all (\<lambda>ev. owner_event svc w userId ev \<and> \<not> touches_owner svc other ev)
           (new_events w (snd (listBackups svc userId w)))"
    by (rule list_all_not_other[OF listBackups_events[OF pu assms(5)] other])
  have r: "list_all (\<lambda>ev. owner_event svc w userId ev \<and> \<not> touches_owner svc other ev)
           (new_events w (snd (restoreBackup svc userId backupId w)))"
    by (rule list_all_not_other[OF restoreBackup_events[OF assms(1) assms(2)] other])
  have k: "\<not> in_owner_prefix other (userId @ ''/'' @ n)" for n
    using in_owner_prefix_other[of userId "userId @ ''/'' @ n" other] pu po assms(4)
    by (simp add: in_owner_prefix_def)
  have p: "\<not> in_owner_dir svc other (localBackupDir svc @ [userId, n])" for n
    using in_owner_dir_other[of svc userId "localBackupDir svc @ [userId, n]" other] assms(4)
    by simp
  have recs: "\<forall>rs r. fst (listBackups svc userId w) = Resolved rs \<and> r \<in> set rs \<longrightarrow>
             (if deployMode svc = Cloud \<and> client svc \<noteq> None
              then map_of (objects w) (userId @ ''/'' @ rec_id r) \<noteq> None
                   \<and> \<not> in_owner_prefix other (userId @ ''/'' @ rec_id r)
              else lookup_fs w (localBackupDir svc @ [userId, rec_id r]) \<noteq> None
                   \<and> \<not> in_owner_dir svc other (localBackupDir svc @ [userId, rec_id r]))"
  proof (intro allI impI)
    fix rs r
    assume a: "fst (listBackups svc userId w) = Resolved rs \<and> r \<in> set rs"
    from listBackups_records[OF conjunct1[OF a] conjunct2[OF a] pu assms(5)] k p
    show "if deployMode svc = Cloud \<and> client svc \<noteq> None
              then map_of (objects w) (userId @ ''/'' @ rec_id r) \<noteq> None
                   \<and> \<not> in_owner_prefix other (userId @ ''/'' @ rec_id r)
              else lookup_fs w (localBackupDir svc @ [userId, rec_id r]) \<noteq> None
                   \<and> \<not> in_owner_dir svc other (localBackupDir svc @ [userId, rec_id r])"
      by (auto split: if_splits)
  qed
  from c l r recs show ?thesis by blast
qed

text \<open>
  C1 as stated ("ids with separators or parent-directory segments are sanitised or
  rejected") fails: in local mode \<open>restoreBackup\<close> for user \<open>A\<close> with the backup id
  \<open>../B/backup_2024-01-01T12-00-00_GMT.zip\<close> succeeds, and the path it checked is the
  backup of user \<open>B\<close>.
\<close>

theorem restore_escapes_owner_directory:
  "fst (restoreBackup svcLocal ''A'' ''../B/backup_2024-01-01T12-00-00_GMT.zip'' world_local3) = Resolved True
   \<and> new_events world_local3
        (snd (restoreBackup svcLocal ''A'' ''../B/backup_2024-01-01T12-00-00_GMT.zip'' world_local3))
      = [FsPathExists [''srv'', ''app'', ''backups'', ''B'', ''backup_2024-01-01T12-00-00_GMT.zip'']]
   \<and> in_owner_dir svcLocal ''B'' [''srv'', ''app'', ''backups'', ''B'', ''backup_2024-01-01T12-00-00_GMT.zip'']
   \<and> \<not> in_owner_dir svcLocal ''A'' [''srv'', ''app'', ''backups'', ''B'', ''backup_2024-01-01T12-00-00_GMT.zip'']"
  by (simp add: restoreBackup_def restoreBackup_try_def fs_pathExists_def monad_defs Let_def
      new_events_def in_owner_dir_def world_defs path_join_def join_sep_def named_def norm_step_def
      lookup_fs_def)

text \<open>The same in cloud mode: the key \<open>A/../B/backup_2024-01-01T12-00-00_GMT.zip\<close> goes
  into the request URL as it is, the request addresses the object of user \<open>B\<close>, and
  its bytes are what \<open>restoreBackup\<close> for user \<open>A\<close> writes to the restore file.\<close>

lemma cloud_restore_escapes_owner_prefix:
  "fst (restoreBackup svcCloud ''A'' ''../B/backup_2024-01-01T12-00-00_GMT.zip'' world_cloud3) = Resolved True
   \<and> new_events world_cloud3
        (snd (restoreBackup svcCloud ''A'' ''../B/backup_2024-01-01T12-00-00_GMT.zip'' world_cloud3))
      = [SbDownload ''A/../B/backup_2024-01-01T12-00-00_GMT.zip'',
         FsWriteFile [''srv'', ''app'', ''restore_temp.zip''] ''PKother'',
         FsRemove [''srv'', ''app'', ''restore_temp.zip'']]
   \<and> download_key ''A/../B/backup_2024-01-01T12-00-00_GMT.zip''
      = Some ''B/backup_2024-01-01T12-00-00_GMT.zip''
   \<and> touches_owner svcCloud ''B'' (SbDownload ''A/../B/backup_2024-01-01T12-00-00_GMT.zip'')
   \<and> \<not> owner_event svcCloud world_cloud3 ''A'' (SbDownload ''A/../B/backup_2024-01-01T12-00-00_GMT.zip'')"
proof -
  have k: "download_key ''A/../B/backup_2024-01-01T12-00-00_GMT.zip''
      = Some ''B/backup_2024-01-01T12-00-00_GMT.zip''"
    by (simp add: url_defs)
  show ?thesis
    by (simp add: restoreBackup_def restoreBackup_try_def fs_writeFile_def fs_remove_def open_error_def
        sb_download_def getCwd_def monad_defs emit_def Let_def new_events_def k reaches_prefix_def
        in_owner_prefix_def world_defs path_defs)
qed

lemma plain_names_local3: "plain_names world_local3"
  by (simp add: plain_names_def plain_seg_def world_defs)

lemma plain_names_cloud3: "plain_names world_cloud3"
  by (simp add: plain_names_def plain_seg_def world_defs)

theorem tenant_isolation_safe_ids_witness:
  "safe_id ''A'' \<and> safe_id ''backup_2024-01-01T00-00-00_GMT.zip'' \<and> safe_id ''B'' \<and> ''B'' \<noteq> ''A''
   \<and> plain_names world_local3 \<and> iso_chars (nowISO world_local3)
   \<and> localBackupDir svcLocal = cwd world_local3 @ [''backups'']
   \<and> list_all (\<lambda>ev. owner_event svcLocal world_local3 ''A'' ev \<and> \<not> touches_owner svcLocal ''B'' ev)
        (new_events world_local3 (snd (createBackup svcLocal ''A'' world_local3)))
   \<and> list_all (\<lambda>ev. owner_event svcLocal world_local3 ''A'' ev \<and> \<not> touches_owner svcLocal ''B'' ev)
        (new_events world_local3 (snd (listBackups svcLocal ''A'' world_local3)))
   \<and> list_all (\<lambda>ev. owner_event svcLocal world_local3 ''A'' ev \<and> \<not> touches_owner svcLocal ''B'' ev)
        (new_events world_local3
           (snd (restoreBackup svcLocal ''A'' ''backup_2024-01-01T00-00-00_GMT.zip'' world_local3)))
   \<and> plain_names world_cloud3 \<and> iso_chars (nowISO world_cloud3)
   \<and> localBackupDir svcCloud = cwd world_cloud3 @ [''backups'']
   \<and> list_all (\<lambda>ev. owner_event svcCloud world_cloud3 ''A'' ev \<and> \<not> touches_owner svcCloud ''B'' ev)
        (new_events world_cloud3 (snd (createBackup svcCloud ''A'' world_cloud3)))
   \<and> list_all (\<lambda>ev. owner_event svcCloud world_cloud3 ''A'' ev \<and> \<not> touches_owner svcCloud ''B'' ev)
        (new_events world_cloud3
           (snd (restoreBackup svcCloud ''A'' ''backup_2024-01-01T00-00-00_GMT.zip'' world_cloud3)))"
proof -
  have h1: "safe_id ''A''" and h2: "safe_id ''backup_2024-01-01T00-00-00_GMT.zip''"
    and h3: "safe_id ''B''" and h4: "''B'' \<noteq> ''A''"
    by (simp_all add: safe_id_def safe_char_def)
  have h6: "iso_chars (nowISO world_local3)"
    and h7: "localBackupDir svcLocal = cwd world_local3 @ [''backups'']"
    and c6: "iso_chars (nowISO world_cloud3)"
    and c7: "localBackupDir svcCloud = cwd world_cloud3 @ [''backups'']"
    by (simp_all add: world_defs iso_chars_def safe_char_def)
  from tenant_isolation_safe_ids[OF h1 h2 h3 h4 plain_names_local3 h6 h7]
    tenant_isolation_safe_ids[OF h1 h2 h3 h4 plain_names_cloud3 c6 c7]
    h1 h2 h3 h4 plain_names_local3 plain_names_cloud3 h6 h7 c6 c7
  show ?thesis by simp
qed

end
